theory Spec2Isabelle
  imports Complex_Main
begin

section \<open>Text primitives of the generator script\<close>

text \<open>
  The script \<^verbatim>\<open>scripts/generate_books_with_ollama.py\<close> works on Python \<^verbatim>\<open>str\<close>
  values. A text is modelled as a \<^typ>\<open>string\<close>, one \<^typ>\<open>char\<close> per code point, which
  covers the code points 0 to 255. The script classifies characters in three ways only:
  the word characters of \<^verbatim>\<open>WORD_RE\<close>, the white space removed by \<^verbatim>\<open>str.strip()\<close>,
  and the ASCII letters and digits of the slug pattern.
\<close>

definition is_word_char :: "char \<Rightarrow> bool" where
  \<comment> \<open>the character class \<^verbatim>\<open>[A-Za-z0-9']\<close> of \<^verbatim>\<open>WORD_RE\<close>\<close>
  "is_word_char c =
     (let n = (of_char c :: nat)
      in (65 \<le> n \<and> n \<le> 90) \<or> (97 \<le> n \<and> n \<le> 122) \<or> (48 \<le> n \<and> n \<le> 57) \<or> n = 39)"

definition is_space :: "char \<Rightarrow> bool" where
  \<comment> \<open>the code points below 256 that \<^verbatim>\<open>str.strip()\<close> removes: TAB, LF, VT, FF, CR,
      FS, GS, RS, US, SPACE, NEL and NBSP\<close>
  "is_space c =
     (let n = (of_char c :: nat)
      in (9 \<le> n \<and> n \<le> 13) \<or> (28 \<le> n \<and> n \<le> 32) \<or> n = 133 \<or> n = 160)"

fun word_runs :: "string \<Rightarrow> string \<Rightarrow> string list" where
  \<comment> \<open>\<^verbatim>\<open>WORD_RE.findall\<close>, scanning left to right; the first argument is the run
      of word characters read so far\<close>
  "word_runs cur [] = (if cur = [] then [] else [cur])"
| "word_runs cur (c # cs) =
     (if is_word_char c then word_runs (cur @ [c]) cs
      else (if cur = [] then [] else [cur]) @ word_runs [] cs)"

definition findall_words :: "string \<Rightarrow> string list" where
  "findall_words text = word_runs [] text"

definition count_words :: "string \<Rightarrow> nat" where
  \<comment> \<open>\<^verbatim>\<open>len(WORD_RE.findall(text))\<close>\<close>
  "count_words text = length (findall_words text)"

definition lstrip :: "string \<Rightarrow> string" where
  "lstrip s = dropWhile is_space s"

definition rstrip :: "string \<Rightarrow> string" where
  "rstrip s = rev (dropWhile is_space (rev s))"

definition strip :: "string \<Rightarrow> string" where
  \<comment> \<open>\<^verbatim>\<open>s.strip()\<close>\<close>
  "strip s = lstrip (rstrip s)"

definition strip_char :: "char \<Rightarrow> string \<Rightarrow> string" where
  \<comment> \<open>\<^verbatim>\<open>s.strip(c)\<close> for a single character\<close>
  "strip_char c s = dropWhile (\<lambda>x. x = c) (rev (dropWhile (\<lambda>x. x = c) (rev s)))"

definition rstrip_char :: "char \<Rightarrow> string \<Rightarrow> string" where
  \<comment> \<open>\<^verbatim>\<open>s.rstrip(c)\<close> for a single character\<close>
  "rstrip_char c s = rev (dropWhile (\<lambda>x. x = c) (rev s))"

definition ascii_lower :: "char \<Rightarrow> char" where
  \<comment> \<open>\<^verbatim>\<open>str.lower()\<close> on one character. The script looks at a lowered text only
      through the prefix test against \<^verbatim>\<open>"chapter "\<close> and through the class
      \<^verbatim>\<open>[a-z0-9]\<close>; both see ASCII letters only, so other characters are left as
      they are.\<close>
  "ascii_lower c =
     (case map_of (zip ''ABCDEFGHIJKLMNOPQRSTUVWXYZ'' ''abcdefghijklmnopqrstuvwxyz'') c of
        Some l \<Rightarrow> l
      | None \<Rightarrow> c)"

definition lower :: "string \<Rightarrow> string" where
  "lower s = map ascii_lower s"

definition startswith :: "string \<Rightarrow> string \<Rightarrow> bool" where
  "startswith s p = (take (length p) s = p)"

fun join :: "string \<Rightarrow> string list \<Rightarrow> string" where
  \<comment> \<open>\<^verbatim>\<open>sep.join(xs)\<close>\<close>
  "join sep [] = []"
| "join sep [x] = x"
| "join sep (x # y # ys) = x @ sep @ join sep (y # ys)"

fun str_nat :: "nat \<Rightarrow> string" where
  "str_nat n =
     (if n < 10 then [''0123456789'' ! n]
      else str_nat (n div 10) @ [''0123456789'' ! (n mod 10)])"

declare str_nat.simps [simp del]

definition str_int :: "int \<Rightarrow> string" where
  \<comment> \<open>\<^verbatim>\<open>str(i)\<close> of a Python integer\<close>
  "str_int i = (if i < 0 then CHR ''-'' # str_nat (nat (- i)) else str_nat (nat i))"

function str_replace :: "string \<Rightarrow> string \<Rightarrow> string \<Rightarrow> string" where
  \<comment> \<open>\<^verbatim>\<open>s.replace(old, new)\<close> for a non-empty \<^verbatim>\<open>old\<close>: every occurrence, left to
      right, without overlaps\<close>
  "str_replace old new s =
     (if s = [] then []
      else if old \<noteq> [] \<and> take (length old) s = old
           then new @ str_replace old new (drop (length old) s)
      else hd s # str_replace old new (tl s))"
  by pat_completeness auto
termination
  by (relation "measure (\<lambda>(old, new, s). length s)") auto

declare str_replace.simps [simp del]

section \<open>The manuscript and its word count\<close>

definition manuscript_text :: "string \<Rightarrow> string list \<Rightarrow> string" where
  \<comment> \<open>\<^verbatim>\<open>header + "\n\n".join(chapters).strip() + "\n"\<close> with
      \<^verbatim>\<open>header = f"{title}\n\n"\<close>\<close>
  "manuscript_text title chapters =
     (title @ ''\<newline>\<newline>'') @ strip (join ''\<newline>\<newline>'' chapters) @ ''\<newline>''"

section \<open>Exceptions, requests and the outside world\<close>

text \<open>
  Python exceptions are values. The class decides which handler catches one:
  \<^verbatim>\<open>ollama_generate\<close> catches \<^verbatim>\<open>URLError\<close>, \<^verbatim>\<open>TimeoutError\<close>,
  \<^verbatim>\<open>JSONDecodeError\<close> and \<^verbatim>\<open>RuntimeError\<close>; the handlers around the summary and
  the memory merge catch every \<^verbatim>\<open>Exception\<close>; \<^verbatim>\<open>KeyboardInterrupt\<close> stands for
  the exceptions that are no \<^verbatim>\<open>Exception\<close>. \<open>exn_str\<close> is \<^verbatim>\<open>str(exc)\<close> and
  \<open>exn_cause\<close> the exception named after \<^verbatim>\<open>from\<close>.
\<close>

datatype exn_class =
  URLError | TimeoutError | JSONDecodeError | RuntimeError | OtherException | KeyboardInterrupt

datatype exn = Exn (exn_class: exn_class) (exn_str: string) (exn_cause: "exn option")

definition caught_by_transport :: "exn \<Rightarrow> bool" where
  \<comment> \<open>\<^verbatim>\<open>except (error.URLError, TimeoutError, json.JSONDecodeError, RuntimeError)\<close>\<close>
  "caught_by_transport exc =
     (exn_class exc = URLError \<or> exn_class exc = TimeoutError \<or>
      exn_class exc = JSONDecodeError \<or> exn_class exc = RuntimeError)"

definition is_Exception :: "exn \<Rightarrow> bool" where
  \<comment> \<open>\<^verbatim>\<open>except Exception\<close>\<close>
  "is_Exception exc = (exn_class exc \<noteq> KeyboardInterrupt)"

record request =
  rq_url :: string
  rq_model :: string
  rq_system :: string
  rq_prompt :: string
  rq_stream :: bool
  rq_temperature :: real
  rq_top_p :: real
  rq_num_predict :: int
  rq_seed :: "int option"
  rq_timeout_sec :: int

datatype outcome =
  Raises exn
    \<comment> \<open>\<^verbatim>\<open>post_json\<close> or the reading of the reply raised\<close>
| Responds string
    \<comment> \<open>the reply is a document and \<^verbatim>\<open>str(data.get("response", ""))\<close> is this text\<close>

datatype probe_outcome =
  ProbeRaises exn
| ProbeStatus int

record env =
  service :: "nat \<Rightarrow> request \<Rightarrow> outcome"
    \<comment> \<open>what the generation service does with the k-th POST of the run\<close>
  probe :: "string \<Rightarrow> int \<Rightarrow> probe_outcome"
    \<comment> \<open>what the GET of the health check does, given its URL and timeout\<close>
  clock :: "nat \<Rightarrow> string"
    \<comment> \<open>the k-th reading of \<^verbatim>\<open>datetime.now().isoformat()\<close>\<close>

record state_doc =
  st_title :: string
  st_genre :: string
  st_chapters :: "string list"
  st_chapter_summaries :: "string list"
  st_story_memory :: string
  st_created_at :: string
  st_updated_at :: "string option"
  st_word_count :: "nat option"

record metadata =
  m_title :: string
  m_genre :: string
  m_model :: string
  m_endpoint :: string
  m_total_words :: nat
  m_chapters :: nat
  m_target_min_words :: int
  m_generated_at :: string
  m_state_file :: string
  m_chapter_summaries :: "string list"

record world =
  posts :: "request list"
    \<comment> \<open>the POST requests sent so far, in order\<close>
  gen_calls :: "request list"
    \<comment> \<open>the calls of \<^verbatim>\<open>ollama_generate\<close> so far, each with the request it sends\<close>
  sleeps :: "int list"
    \<comment> \<open>the arguments of \<^verbatim>\<open>time.sleep\<close> so far\<close>
  probes :: "(string \<times> int) list"
    \<comment> \<open>the health checks sent so far: URL and timeout\<close>
  ticks :: nat
    \<comment> \<open>how often the clock was read\<close>
  state_files :: "string \<rightharpoonup> state_doc"
  book_files :: "string \<rightharpoonup> string"
  meta_files :: "string \<rightharpoonup> metadata"

definition now_iso :: "env \<Rightarrow> world \<Rightarrow> world \<times> string" where
  \<comment> \<open>\<^verbatim>\<open>datetime.now().isoformat()\<close>\<close>
  "now_iso e w = (w\<lparr>ticks := Suc (ticks w)\<rparr>, clock e (ticks w))"

section \<open>Transport layer\<close>

definition generate_request ::
  "string \<Rightarrow> string \<Rightarrow> string \<Rightarrow> string \<Rightarrow> int \<Rightarrow> real \<Rightarrow> int option \<Rightarrow> request" where
  \<comment> \<open>the URL and payload that \<^verbatim>\<open>ollama_generate\<close> builds before its loop\<close>
  "generate_request endpoint model system prompt timeout_sec temperature seed =
     \<lparr>rq_url = rstrip_char CHR ''/'' endpoint @ ''/api/generate'',
      rq_model = model, rq_system = system, rq_prompt = prompt, rq_stream = False,
      rq_temperature = temperature, rq_top_p = 0.9, rq_num_predict = 4096,
      rq_seed = seed, rq_timeout_sec = timeout_sec\<rparr>"

definition attempt_result :: "env \<Rightarrow> request \<Rightarrow> nat \<Rightarrow> exn + string" where
  \<comment> \<open>the body of the \<^verbatim>\<open>try\<close> when the POST is the k-th of the run: the reply is
      stripped, and a blank one raises\<close>
  "attempt_result e rq k =
     (case service e k rq of
        Raises exc \<Rightarrow> Inl exc
      | Responds text \<Rightarrow>
          (let response = strip text
           in if response = []
              then Inl (Exn RuntimeError ''empty response from Ollama'' None)
              else Inr response))"

definition attempt_once :: "env \<Rightarrow> request \<Rightarrow> world \<Rightarrow> world \<times> (exn + string)" where
  \<comment> \<open>one POST, recorded in the world\<close>
  "attempt_once e rq w = (w\<lparr>posts := posts w @ [rq]\<rparr>, attempt_result e rq (length (posts w)))"

function attempt_loop ::
  "env \<Rightarrow> request \<Rightarrow> int \<Rightarrow> int \<Rightarrow> world \<Rightarrow> world \<times> (exn + string)" where
  \<comment> \<open>the \<^verbatim>\<open>while True\<close> loop of \<^verbatim>\<open>ollama_generate\<close>; the fourth argument is
      \<^verbatim>\<open>attempt\<close> on entry to an iteration\<close>
  "attempt_loop e rq retries attempt0 w =
     (let attempt = attempt0 + 1
      in case attempt_once e rq w of
           (w1, Inr response) \<Rightarrow> (w1, Inr response)
         | (w1, Inl exc) \<Rightarrow>
             if \<not> caught_by_transport exc then (w1, Inl exc)
             else if attempt \<ge> retries
             then (w1, Inl (Exn RuntimeError
                     (''Ollama generation failed after '' @ str_int attempt @
                      '' attempts: '' @ exn_str exc) (Some exc)))
             else attempt_loop e rq retries attempt (w1\<lparr>sleeps := sleeps w1 @ [attempt * 2]\<rparr>))"
  by pat_completeness auto
termination
  by (relation "measure (\<lambda>(e, rq, retries, attempt0, w). nat (retries - attempt0))") auto

declare attempt_loop.simps [simp del]

definition ollama_generate ::
  "env \<Rightarrow> string \<Rightarrow> string \<Rightarrow> string \<Rightarrow> string \<Rightarrow> int \<Rightarrow> real \<Rightarrow> int option \<Rightarrow> int \<Rightarrow>
   world \<Rightarrow> world \<times> (exn + string)" where
  "ollama_generate e endpoint model system prompt timeout_sec temperature seed retries w =
     (let rq = generate_request endpoint model system prompt timeout_sec temperature seed
      in attempt_loop e rq retries 0 (w\<lparr>gen_calls := gen_calls w @ [rq]\<rparr>))"

definition check_ollama :: "env \<Rightarrow> string \<Rightarrow> int \<Rightarrow> world \<Rightarrow> world \<times> (exn + unit)" where
  "check_ollama e endpoint timeout_sec w =
     (let url = rstrip_char CHR ''/'' endpoint @ ''/api/tags'';
          w1 = w\<lparr>probes := probes w @ [(url, timeout_sec)]\<rparr>;
          unreachable = (\<lambda>exc. Exn RuntimeError
             (''Cannot reach Ollama at '' @ url @
              ''. Ensure service is running (e.g. `brew services start ollama`). Error: '' @
              exn_str exc) (Some exc))
      in case probe e url timeout_sec of
           ProbeRaises exc \<Rightarrow>
             if is_Exception exc then (w1, Inl (unreachable exc)) else (w1, Inl exc)
         | ProbeStatus status \<Rightarrow>
             if status < 200 \<or> status \<ge> 300
             then (w1, Inl (unreachable
                     (Exn RuntimeError (''unexpected status: '' @ str_int status) None)))
             else (w1, Inr ()))"

section \<open>Continuity memory engine\<close>

definition summarize_system :: string where
  "summarize_system =
     ''You summarize fiction chapters for continuity tracking. '' @
     ''Output plain text, max 140 words, focused on plot events, character state, and unresolved threads.''"

definition summarize_prompt :: "string \<Rightarrow> string" where
  "summarize_prompt chapter_text =
     ''Summarize this chapter for continuity memory.\<newline>'' @
     ''- Keep concrete facts.\<newline>'' @
     ''- Mention names, locations, stakes, and unresolved tensions.\<newline>\<newline>'' @
     ''CHAPTER TEXT:\<newline>'' @
     take 12000 chapter_text"

definition summarize_chapter ::
  "env \<Rightarrow> string \<Rightarrow> string \<Rightarrow> string \<Rightarrow> int \<Rightarrow> int option \<Rightarrow> world \<Rightarrow> world \<times> (exn + string)" where
  "summarize_chapter e endpoint model chapter_text timeout_sec seed w =
     ollama_generate e endpoint model summarize_system (summarize_prompt chapter_text)
       timeout_sec 0.2 seed 3 w"

definition merge_system :: string where
  "merge_system =
     ''You maintain compact long-form story memory. '' @
     ''Output plain text bullet points only, max 350 words.''"

definition merge_prompt :: "string \<Rightarrow> string \<Rightarrow> string" where
  "merge_prompt previous_memory latest_summary =
     ''Update the running story memory using the latest chapter summary.\<newline>'' @
     ''Preserve continuity facts, unresolved threads, alliances, betrayals, emotional state changes, and timeline markers.\<newline>'' @
     ''Drop fluff.\<newline>\<newline>'' @
     ''PREVIOUS MEMORY:\<newline>'' @
     previous_memory @ ''\<newline>\<newline>'' @
     ''LATEST CHAPTER SUMMARY:\<newline>'' @
     latest_summary @ ''\<newline>\<newline>'' @
     ''Return updated memory now.''"

definition merge_memory ::
  "env \<Rightarrow> string \<Rightarrow> string \<Rightarrow> string \<Rightarrow> string \<Rightarrow> int \<Rightarrow> int option \<Rightarrow> world \<Rightarrow>
   world \<times> (exn + string)" where
  "merge_memory e endpoint model previous_memory latest_summary timeout_sec seed w =
     ollama_generate e endpoint model merge_system (merge_prompt previous_memory latest_summary)
       timeout_sec 0.2 seed 3 w"

section \<open>Chapter production policy\<close>

record BookSpec =
  genre :: string
  title :: string
  premise :: string
  tone :: string
  chapter_plans :: "string list"

text \<open>
  The options of the command line that \<^verbatim>\<open>main\<close> hands to \<^verbatim>\<open>generate_one_book\<close>;
  \<open>output_dir\<close> is the resolved directory.
\<close>

record args =
  model :: string
  endpoint :: string
  output_dir :: string
  min_words :: int
  target_chapter_words :: int
  max_chapters :: int
  timeout_sec :: int
  seed :: "int option"

definition make_chapter_prompt ::
  "BookSpec \<Rightarrow> nat \<Rightarrow> string \<Rightarrow> string \<Rightarrow> int \<Rightarrow> string \<times> string" where
  "make_chapter_prompt spec chapter_number chapter_goal story_memory target_words =
     (let system =
            ''You are writing a '' @ genre spec @ '' novel chapter-by-chapter. '' @
            ''Write natural prose with varied sentence rhythm and pacing. '' @
            ''Avoid repetitive phrasing and avoid reusing prior paragraphs verbatim. '' @
            ''No meta commentary. No outlines. No markdown.'';
          prompt = str_replace ''{N}'' (str_nat chapter_number)
           (''Book title: '' @ title spec @ ''\<newline>'' @
            ''Genre: '' @ genre spec @ ''\<newline>'' @
            ''Premise: '' @ premise spec @ ''\<newline>'' @
            ''Tone: '' @ tone spec @ ''\<newline>'' @
            ''Chapter number: '' @ str_nat chapter_number @ ''\<newline>'' @
            ''Target chapter length: about '' @ str_int target_words @
            '' words (minimum '' @ str_int (max 1200 (target_words - 250)) @ '').\<newline>\<newline>'' @
            ''Story summary so far:\<newline>'' @
            story_memory @ ''\<newline>\<newline>'' @
            ''General plot objective for this chapter:\<newline>'' @
            chapter_goal @ ''\<newline>\<newline>'' @
            ''Instructions:\<newline>'' @
            ''- Start with 'Chapter {N}: <title>' on the first line.\<newline>'' @
            ''- Continue directly with prose scenes.\<newline>'' @
            ''- Advance the story materially; include consequences from prior chapters.\<newline>'' @
            ''- End with a clear hook into the next chapter.\<newline>'' @
            ''- Output chapter text only.\<newline>'')
      in (system, prompt))"

definition escalation_goal :: string where
  "escalation_goal =
     ''Continue escalation from prior chapter, deepen character consequences, '' @
     ''and set up the final resolution without repeating earlier scenes.''"

definition chapter_goal_for :: "BookSpec \<Rightarrow> nat \<Rightarrow> string" where
  \<comment> \<open>lines 368 to 374; \<open>chapter_no\<close> is \<^verbatim>\<open>len(chapters) + 1\<close>, so at least 1\<close>
  "chapter_goal_for spec chapter_no =
     (if chapter_no \<le> length (chapter_plans spec)
      then chapter_plans spec ! (chapter_no - 1)
      else escalation_goal)"

definition produce_chapter ::
  "env \<Rightarrow> BookSpec \<Rightarrow> args \<Rightarrow> nat \<Rightarrow> string \<Rightarrow> world \<Rightarrow> world \<times> (exn + string)" where
  \<comment> \<open>lines 368 to 418 of the loop body: the chapter goal, the first attempt, the
      synthetic heading, and the regeneration of a short chapter\<close>
  "produce_chapter e spec a chapter_no story_memory w =
     (let chapter_goal = chapter_goal_for spec chapter_no;
          (system, prompt) =
             make_chapter_prompt spec chapter_no chapter_goal story_memory (target_chapter_words a)
      in case ollama_generate e (endpoint a) (model a) system prompt (timeout_sec a) 0.75 (seed a) 3 w of
           (w1, Inl exc) \<Rightarrow> (w1, Inl exc)
         | (w1, Inr response) \<Rightarrow>
             (let stripped = strip response;
                  chapter_text =
                    (if \<not> startswith (lower stripped) ''chapter ''
                     then ''Chapter '' @ str_nat chapter_no @ '': Untitled\<newline>\<newline>'' @ stripped
                     else stripped);
                  ch_words = count_words chapter_text
              in if int ch_words < max 900 (target_chapter_words a div 2)
                 then
                   (let (system_retry, prompt_retry) =
                          make_chapter_prompt spec chapter_no
                            (chapter_goal @ '' Write fuller scenes and dialogue.'')
                            story_memory (max (target_chapter_words a) 2000)
                    in case ollama_generate e (endpoint a) (model a) system_retry prompt_retry
                              (timeout_sec a) 0.8 (seed a) 3 w1 of
                         (w2, Inl exc) \<Rightarrow> (w2, Inl exc)
                       | (w2, Inr response2) \<Rightarrow> (w2, Inr (strip response2)))
                 else (w1, Inr chapter_text)))"

section \<open>Resumable generation controller\<close>

text \<open>
  The local variables of \<^verbatim>\<open>generate_one_book\<close> that live across iterations of its
  loop: the state document and the three values copied out of it.
\<close>

record book_vars =
  state :: state_doc
  chapters :: "string list"
  chapter_summaries :: "string list"
  story_memory :: string

definition is_slug_char :: "char \<Rightarrow> bool" where
  \<comment> \<open>the character class \<^verbatim>\<open>[a-z0-9]\<close>\<close>
  "is_slug_char c =
     (let n = (of_char c :: nat) in (97 \<le> n \<and> n \<le> 122) \<or> (48 \<le> n \<and> n \<le> 57))"

fun slug_runs :: "bool \<Rightarrow> string \<Rightarrow> string" where
  \<comment> \<open>\<^verbatim>\<open>re.sub(r"[^a-z0-9]+", "_", s)\<close>; the flag says that the run of other
      characters being read has already been replaced\<close>
  "slug_runs in_run [] = []"
| "slug_runs in_run (c # cs) =
     (if is_slug_char c then c # slug_runs False cs
      else if in_run then slug_runs True cs
      else CHR ''_'' # slug_runs True cs)"

definition slugify :: "string \<Rightarrow> string" where
  \<comment> \<open>\<^verbatim>\<open>re.sub(r"[^a-z0-9]+", "_", title.lower()).strip("_")\<close>\<close>
  "slugify t = strip_char CHR ''_'' (slug_runs False (lower t))"

definition path_join :: "string \<Rightarrow> string \<Rightarrow> string" where
  \<comment> \<open>\<^verbatim>\<open>output_dir / name\<close> for a resolved directory other than the root\<close>
  "path_join dir name = dir @ ''/'' @ name"

definition state_path :: "args \<Rightarrow> BookSpec \<Rightarrow> string" where
  "state_path a spec = path_join (output_dir a) (slugify (title spec) @ ''.state.json'')"

definition book_path :: "args \<Rightarrow> BookSpec \<Rightarrow> string" where
  "book_path a spec = path_join (output_dir a) (slugify (title spec) @ ''.txt'')"

definition meta_path :: "args \<Rightarrow> BookSpec \<Rightarrow> string" where
  "meta_path a spec = path_join (output_dir a) (slugify (title spec) @ ''.meta.json'')"

definition load_vars :: "env \<Rightarrow> BookSpec \<Rightarrow> args \<Rightarrow> world \<Rightarrow> world \<times> book_vars" where
  \<comment> \<open>lines 354 to 364: the stored state document, or a fresh one\<close>
  "load_vars e spec a w =
     (case state_files w (state_path a spec) of
        Some doc \<Rightarrow>
          (w, \<lparr>state = doc, chapters = st_chapters doc,
               chapter_summaries = st_chapter_summaries doc,
               story_memory = st_story_memory doc\<rparr>)
      | None \<Rightarrow>
          (let (w1, created) = now_iso e w;
               doc = \<lparr>st_title = title spec, st_genre = genre spec, st_chapters = [],
                      st_chapter_summaries = [], st_story_memory = ''No chapters yet.'',
                      st_created_at = created, st_updated_at = None, st_word_count = None\<rparr>
           in (w1, \<lparr>state = doc, chapters = [], chapter_summaries = [],
                    story_memory = ''No chapters yet.''\<rparr>)))"

definition loop_condition :: "BookSpec \<Rightarrow> args \<Rightarrow> string list \<Rightarrow> bool" where
  \<comment> \<open>the condition of the \<^verbatim>\<open>while\<close> at line 366\<close>
  "loop_condition spec a chs =
     (int (count_words (manuscript_text (title spec) chs)) < min_words a \<and>
      int (length chs) < max_chapters a)"

definition fallback_memory :: "string list \<Rightarrow> string" where
  \<comment> \<open>lines 445 and 446; \<^verbatim>\<open>chapter_summaries[-5:]\<close> is the last five entries, or all
      of them when there are fewer\<close>
  "fallback_memory summaries =
     ''Recent continuity notes:\<newline>'' @
     join ''\<newline>'' (drop (length summaries - 5) summaries)"

definition record_chapter ::
  "env \<Rightarrow> BookSpec \<Rightarrow> args \<Rightarrow> nat \<Rightarrow> string \<Rightarrow> book_vars \<Rightarrow> world \<Rightarrow>
   world \<times> (exn + book_vars)" where
  \<comment> \<open>lines 420 to 460 of the loop body: append the chapter, summarize, merge the
      memory, update and write the state document, rewrite the manuscript\<close>
  "record_chapter e spec a chapter_no chapter_text v w =
     (let chapters1 = chapters v @ [chapter_text]
      in case (case summarize_chapter e (endpoint a) (model a) chapter_text (timeout_sec a) (seed a) w of
                 (w1, Inr summary) \<Rightarrow> (w1, Inr (strip summary))
               | (w1, Inl exc) \<Rightarrow>
                   if is_Exception exc
                   then (w1, Inr (''Chapter '' @ str_nat chapter_no @
                                  '' summary unavailable due to error: '' @ exn_str exc))
                   else (w1, Inl exc)) of
           (w1, Inl exc) \<Rightarrow> (w1, Inl exc)
         | (w1, Inr chapter_summary) \<Rightarrow>
             (let summaries1 = chapter_summaries v @ [chapter_summary]
              in case (case merge_memory e (endpoint a) (model a) (story_memory v) chapter_summary
                              (timeout_sec a) (seed a) w1 of
                         (w2, Inr memory) \<Rightarrow> (w2, Inr (strip memory))
                       | (w2, Inl exc) \<Rightarrow>
                           if is_Exception exc
                           then (w2, Inr (fallback_memory summaries1))
                           else (w2, Inl exc)) of
                   (w2, Inl exc) \<Rightarrow> (w2, Inl exc)
                 | (w2, Inr memory1) \<Rightarrow>
                     (let (w3, updated) = now_iso e w2;
                          state1 = (state v)
                            \<lparr>st_chapters := chapters1,
                             st_chapter_summaries := summaries1,
                             st_story_memory := memory1,
                             st_updated_at := Some updated,
                             st_word_count :=
                               Some (count_words (manuscript_text (title spec) chapters1))\<rparr>;
                          w4 = w3\<lparr>state_files := (state_files w3)(state_path a spec \<mapsto> state1)\<rparr>;
                          manuscript = manuscript_text (title spec) chapters1;
                          w5 = w4\<lparr>book_files := (book_files w4)(book_path a spec \<mapsto> manuscript)\<rparr>
                      in (w5, Inr \<lparr>state = state1, chapters = chapters1,
                                   chapter_summaries = summaries1,
                                   story_memory = memory1\<rparr>))))"

definition chapter_step ::
  "env \<Rightarrow> BookSpec \<Rightarrow> args \<Rightarrow> book_vars \<Rightarrow> world \<Rightarrow> world \<times> (exn + book_vars)" where
  \<comment> \<open>one iteration of the loop, lines 367 to 463\<close>
  "chapter_step e spec a v w =
     (let chapter_no = length (chapters v) + 1
      in case produce_chapter e spec a chapter_no (story_memory v) w of
           (w1, Inl exc) \<Rightarrow> (w1, Inl exc)
         | (w1, Inr chapter_text) \<Rightarrow> record_chapter e spec a chapter_no chapter_text v w1)"

function book_loop ::
  "env \<Rightarrow> BookSpec \<Rightarrow> args \<Rightarrow> book_vars \<Rightarrow> world \<Rightarrow> world \<times> (exn + book_vars)" where
  \<comment> \<open>the \<^verbatim>\<open>while\<close> loop of \<^verbatim>\<open>generate_one_book\<close>; an exception raised in the
      body leaves the loop\<close>
  "book_loop e spec a v w =
     (if loop_condition spec a (chapters v)
      then case chapter_step e spec a v w of
             (w1, Inl exc) \<Rightarrow> (w1, Inl exc)
           | (w1, Inr v1) \<Rightarrow> book_loop e spec a v1 w1
      else (w, Inr v))"
  by pat_completeness auto
termination
proof (relation "measure (\<lambda>(e, spec, a, v, w). nat (max_chapters a - int (length (chapters v))))")
  show "wf (measure (\<lambda>(e, spec, a, v, w). nat (max_chapters a - int (length (chapters v)))))"
    by simp
next
  fix e spec a v w x y v1
  assume cond: "loop_condition spec a (chapters v)"
    and step: "(x, y) = chapter_step e spec a v w"
    and ok: "y = Inr v1"
  from step ok have "length (chapters v1) = Suc (length (chapters v))"
    by (auto simp: chapter_step_def record_chapter_def now_iso_def Let_def
             split: prod.splits sum.splits if_splits)
  with cond show "((e, spec, a, v1, x), (e, spec, a, v, w))
      \<in> measure (\<lambda>(e, spec, a, v, w). nat (max_chapters a - int (length (chapters v))))"
    by (simp add: loop_condition_def)
qed

declare book_loop.simps [simp del]

definition under_length_error :: "BookSpec \<Rightarrow> args \<Rightarrow> nat \<Rightarrow> exn" where
  \<comment> \<open>the \<^verbatim>\<open>RuntimeError\<close> of lines 482 to 485\<close>
  "under_length_error spec a total_words =
     Exn RuntimeError
       (title spec @ '' finished at '' @ str_nat total_words @
        '' words, below requested minimum '' @ str_int (min_words a) @ ''. '' @
        ''Increase --max-chapters or --target-chapter-words and rerun.'')
       None"

definition finalize ::
  "env \<Rightarrow> BookSpec \<Rightarrow> args \<Rightarrow> book_vars \<Rightarrow> world \<Rightarrow> world \<times> (exn + string)" where
  \<comment> \<open>lines 465 to 487: the metadata document, then the length check\<close>
  "finalize e spec a v w =
     (let manuscript = manuscript_text (title spec) (chapters v);
          total_words = count_words manuscript;
          (w1, generated) = now_iso e w;
          metadata =
            \<lparr>m_title = title spec, m_genre = genre spec, m_model = model a,
             m_endpoint = endpoint a, m_total_words = total_words,
             m_chapters = length (chapters v), m_target_min_words = min_words a,
             m_generated_at = generated, m_state_file = state_path a spec,
             m_chapter_summaries = chapter_summaries v\<rparr>;
          w2 = w1\<lparr>meta_files := (meta_files w1)(meta_path a spec \<mapsto> metadata)\<rparr>
      in if int total_words < min_words a
         then (w2, Inl (under_length_error spec a total_words))
         else (w2, Inr (book_path a spec)))"

definition generate_one_book ::
  "env \<Rightarrow> BookSpec \<Rightarrow> args \<Rightarrow> world \<Rightarrow> world \<times> (exn + string)" where
  "generate_one_book e spec a w =
     (let (w0, v0) = load_vars e spec a w
      in case book_loop e spec a v0 w0 of
           (w1, Inl exc) \<Rightarrow> (w1, Inl exc)
         | (w1, Inr v1) \<Rightarrow> finalize e spec a v1 w1)"

section \<open>The entry point\<close>

fun run_books ::
  "env \<Rightarrow> args \<Rightarrow> BookSpec list \<Rightarrow> string list \<Rightarrow> world \<Rightarrow> world \<times> (exn + string list)" where
  \<comment> \<open>the \<^verbatim>\<open>for spec in default_specs()\<close> loop of \<^verbatim>\<open>main\<close>, over a given catalogue\<close>
  "run_books e a [] generated w = (w, Inr generated)"
| "run_books e a (spec # specs) generated w =
     (case generate_one_book e spec a w of
        (w1, Inl exc) \<Rightarrow> (w1, Inl exc)
      | (w1, Inr out_path) \<Rightarrow> run_books e a specs (generated @ [out_path]) w1)"

definition main :: "env \<Rightarrow> args \<Rightarrow> BookSpec list \<Rightarrow> world \<Rightarrow> world \<times> (exn + int)" where
  \<comment> \<open>\<^verbatim>\<open>main\<close> after the parsing of the options. The catalogue of
      \<^verbatim>\<open>default_specs()\<close> is a parameter. The closing report reads every manuscript
      back, which raises for a file that was never written.\<close>
  "main e a specs w =
     (case check_ollama e (endpoint a) (max 5 (min (timeout_sec a) 30)) w of
        (w1, Inl exc) \<Rightarrow> (w1, Inl exc)
      | (w1, Inr ok) \<Rightarrow>
          (case run_books e a specs [] w1 of
             (w2, Inl exc) \<Rightarrow> (w2, Inl exc)
           | (w2, Inr generated) \<Rightarrow>
               (case find (\<lambda>pth. book_files w2 pth = None) generated of
                  Some pth \<Rightarrow>
                    (w2, Inl (Exn OtherException
                       (''[Errno 2] No such file or directory: '' @ [CHR 0x27] @ pth @ [CHR 0x27])
                       None))
                | None \<Rightarrow> (w2, Inr 0))))"

section \<open>A sample run\<close>

text \<open>
  A service that answers every request with the same short chapter, a clock that counts
  its readings, the options of the command line at their defaults, and a world in which
  nothing has happened yet.
\<close>

definition sample_env :: env where
  "sample_env =
     \<lparr>service = (\<lambda>k rq. Responds ''Chapter 1: Dawn. The night was long.''),
      probe = (\<lambda>url t. ProbeStatus 200),
      clock = (\<lambda>k. str_nat k)\<rparr>"

definition sample_spec :: BookSpec where
  "sample_spec =
     \<lparr>genre = ''thriller'', title = ''Null Meridian'',
      premise = ''A cyber-intelligence officer uncovers a conspiracy.'',
      tone = ''tense'',
      chapter_plans = [''Open with an engineered blackout.'', ''Mara discovers the breach.'']\<rparr>"

definition sample_args :: args where
  "sample_args =
     \<lparr>model = ''llama3.1:8b'', endpoint = ''http://127.0.0.1:11434'', output_dir = ''/books'',
      min_words = 40000, target_chapter_words = 1800, max_chapters = 32, timeout_sec = 240,
      seed = None\<rparr>"

definition empty_world :: world where
  "empty_world =
     \<lparr>posts = [], gen_calls = [], sleeps = [], probes = [], ticks = 0,
      state_files = Map.empty, book_files = Map.empty, meta_files = Map.empty\<rparr>"

text \<open>A service whose first two replies are lost and whose third is a chapter.\<close>

definition flaky_env :: env where
  "flaky_env =
     \<lparr>service = (\<lambda>k rq. if k < 2 then Raises (Exn URLError ''connection refused'' None)
                          else Responds ''  Chapter 1: Dawn.  ''),
      probe = (\<lambda>url t. ProbeStatus 200),
      clock = (\<lambda>k. str_nat k)\<rparr>"

text \<open>
  A chapter of \<open>n + 2\<close> words that opens with the chapter marker, and a service that
  answers every request with a chapter of this kind.
\<close>

definition filler_chapter :: "nat \<Rightarrow> string" where
  "filler_chapter n = ''Chapter one'' @ concat (replicate n '' word'')"

definition filler_env :: "nat \<Rightarrow> env" where
  "filler_env n =
     \<lparr>service = (\<lambda>k rq. Responds (filler_chapter n)),
      probe = (\<lambda>url t. ProbeStatus 200),
      clock = (\<lambda>k. str_nat k)\<rparr>"

text \<open>
  A service whose connection is closed by the peer before any reply: \<^verbatim>\<open>urlopen\<close> raises
  \<^verbatim>\<open>http.client.RemoteDisconnected\<close>, an \<^verbatim>\<open>Exception\<close> of none of the four classes
  that \<^verbatim>\<open>ollama_generate\<close> catches.
\<close>

definition dropped_env :: env where
  "dropped_env =
     \<lparr>service = (\<lambda>k rq. Raises
        (Exn OtherException ''Remote end closed connection without response'' None)),
      probe = (\<lambda>url t. ProbeStatus 200),
      clock = str_nat\<rparr>"

text \<open>
  The options of a run that is capped at three chapters and asks for 5000 words, and a
  world in which an earlier run has left a state document of three short chapters.
\<close>

definition capped_args :: args where
  "capped_args = sample_args\<lparr>min_words := 5000, max_chapters := 3\<rparr>"

definition short_doc :: state_doc where
  "short_doc =
     \<lparr>st_title = ''Null Meridian'', st_genre = ''thriller'',
      st_chapters = [''Chapter one'', ''Chapter two'', ''Chapter three''],
      st_chapter_summaries = [''One.'', ''Two.'', ''Three.''],
      st_story_memory = ''Three.'',
      st_created_at = ''0'', st_updated_at = Some ''3'', st_word_count = Some 8\<rparr>"

definition resumed_world :: world where
  "resumed_world =
     empty_world\<lparr>state_files := [state_path capped_args sample_spec \<mapsto> short_doc]\<rparr>"

text \<open>
  A service that refuses every request of the memory merge and answers every other
  request with the short chapter.
\<close>

definition merge_failing_env :: env where
  "merge_failing_env =
     \<lparr>service = (\<lambda>k rq. if rq_system rq = merge_system
                          then Raises (Exn URLError ''connection refused'' None)
                          else Responds ''Chapter 1: Dawn. The night was long.''),
      probe = (\<lambda>url t. ProbeStatus 200),
      clock = str_nat\<rparr>"

section \<open>Word counts\<close>

lemma space_not_word: "is_space c \<Longrightarrow> \<not> is_word_char c"
  by (auto simp: is_space_def is_word_char_def Let_def)

lemma word_runs_sep:
  "\<not> is_word_char c \<Longrightarrow>
   length (word_runs cur (a @ c # b)) = length (word_runs cur a) + length (word_runs [] b)"
  by (induction a arbitrary: cur) auto

lemma count_words_sep:
  "\<not> is_word_char c \<Longrightarrow> count_words (a @ c # b) = count_words a + count_words b"
  by (simp add: count_words_def findall_words_def word_runs_sep)

lemma word_runs_trailing:
  "\<forall>c \<in> set ws. \<not> is_word_char c \<Longrightarrow>
   length (word_runs cur (a @ ws)) = length (word_runs cur a)"
proof (induction a arbitrary: cur)
  case Nil
  then show ?case
  proof (induction ws arbitrary: cur)
    case Nil
    then show ?case by simp
  next
    case (Cons w ws)
    then show ?case by (cases "cur = []") auto
  qed
next
  case (Cons x a)
  then show ?case by auto
qed

lemma word_runs_leading:
  "\<forall>c \<in> set ws. \<not> is_word_char c \<Longrightarrow>
   length (word_runs [] (ws @ a)) = length (word_runs [] a)"
  by (induction ws) auto

lemma count_words_rstrip: "count_words (rstrip s) = count_words s"
proof -
  have s: "s = rstrip s @ rev (takeWhile is_space (rev s))"
    unfolding rstrip_def
    by (metis rev_append rev_rev_ident takeWhile_dropWhile_id)
  have "\<forall>c \<in> set (rev (takeWhile is_space (rev s))). \<not> is_word_char c"
    by (auto dest: set_takeWhileD space_not_word)
  then have "length (word_runs [] (rstrip s @ rev (takeWhile is_space (rev s)))) = length (word_runs [] (rstrip s))"
    by (rule word_runs_trailing)
  with s show ?thesis by (simp add: count_words_def findall_words_def)
qed

lemma count_words_lstrip: "count_words (lstrip s) = count_words s"
proof -
  have s: "s = takeWhile is_space s @ lstrip s"
    unfolding lstrip_def by simp
  have "\<forall>c \<in> set (takeWhile is_space s). \<not> is_word_char c"
    by (auto dest: set_takeWhileD space_not_word)
  then have "length (word_runs [] (takeWhile is_space s @ lstrip s)) = length (word_runs [] (lstrip s))"
    by (rule word_runs_leading)
  with s show ?thesis by (simp add: count_words_def findall_words_def)
qed

lemma count_words_strip: "count_words (strip s) = count_words s"
  by (simp add: strip_def count_words_lstrip count_words_rstrip)

lemma count_words_Nil: "count_words [] = 0"
  by (simp add: count_words_def findall_words_def)

lemma newline_not_word: "\<not> is_word_char CHR ''\<newline>''"
  by (simp add: is_word_char_def)

lemma count_words_join:
  "count_words (join ''\<newline>\<newline>'' chs) = sum_list (map count_words chs)"
proof (induction "''\<newline>\<newline>''" chs rule: join.induct)
  case 1
  then show ?case by (simp add: count_words_Nil)
next
  case (2 x)
  then show ?case by simp
next
  case (3 x y ys)
  have "count_words (x @ CHR ''\<newline>'' # (CHR ''\<newline>'' # join ''\<newline>\<newline>'' (y # ys)))
        = count_words x + count_words (CHR ''\<newline>'' # join ''\<newline>\<newline>'' (y # ys))"
    by (rule count_words_sep [OF newline_not_word])
  moreover have "count_words ([] @ CHR ''\<newline>'' # join ''\<newline>\<newline>'' (y # ys))
        = count_words [] + count_words (join ''\<newline>\<newline>'' (y # ys))"
    by (rule count_words_sep [OF newline_not_word])
  ultimately show ?case using 3 by (simp add: count_words_Nil)
qed

lemma count_words_manuscript:
  "count_words (manuscript_text ttl chs) =
   count_words ttl + sum_list (map count_words chs)"
proof -
  let ?body = "strip (join ''\<newline>\<newline>'' chs)"
  have "count_words (ttl @ CHR ''\<newline>'' # (CHR ''\<newline>'' # ?body @ ''\<newline>''))
        = count_words ttl + count_words (CHR ''\<newline>'' # ?body @ ''\<newline>'')"
    by (rule count_words_sep [OF newline_not_word])
  moreover have "count_words ([] @ CHR ''\<newline>'' # ?body @ ''\<newline>'')
        = count_words [] + count_words (?body @ ''\<newline>'')"
    by (rule count_words_sep [OF newline_not_word])
  moreover have "count_words (?body @ CHR ''\<newline>'' # [])
        = count_words ?body + count_words []"
    by (rule count_words_sep [OF newline_not_word])
  ultimately show ?thesis
    by (simp add: manuscript_text_def count_words_Nil count_words_strip count_words_join)
qed


section \<open>The health check is sent once, before any book\<close>

lemma attempt_loop_probes: "probes (fst (attempt_loop e rq retries k w)) = probes w"
proof (induction e rq retries k w rule: attempt_loop.induct)
  case (1 e rq retries k w)
  show ?case
    by (subst attempt_loop.simps)
       (use 1 in \<open>auto simp: attempt_once_def Let_def split: sum.splits prod.splits\<close>)
qed

lemma ollama_generate_probes:
  "probes (fst (ollama_generate e ep m sys p t temp sd r w)) = probes w"
  by (simp add: ollama_generate_def Let_def attempt_loop_probes)

lemma produce_chapter_probes: "probes (fst (produce_chapter e spec a n mem w)) = probes w"
proof -
  have g: "\<And>sys p temp w w1 r. ollama_generate e (endpoint a) (model a) sys p (timeout_sec a) temp (seed a) 3 w = (w1, r)
      \<Longrightarrow> probes w1 = probes w"
    by (metis ollama_generate_probes fst_conv)
  show ?thesis
    by (auto simp: produce_chapter_def Let_def split: prod.splits sum.splits dest!: g)
qed

lemma record_chapter_probes: "probes (fst (record_chapter e spec a n t v w)) = probes w"
proof -
  have g: "\<And>sys p temp w w1 r. ollama_generate e (endpoint a) (model a) sys p (timeout_sec a) temp (seed a) 3 w = (w1, r)
      \<Longrightarrow> probes w1 = probes w"
    by (metis ollama_generate_probes fst_conv)
  show ?thesis
    by (auto simp: record_chapter_def summarize_chapter_def merge_memory_def now_iso_def Let_def
             split: prod.splits sum.splits if_splits dest!: g)
qed

lemma chapter_step_probes: "probes (fst (chapter_step e spec a v w)) = probes w"
  using produce_chapter_probes [of e spec a "length (chapters v) + 1" "story_memory v" w]
        record_chapter_probes [of e spec a "length (chapters v) + 1"]
  by (auto simp: chapter_step_def Let_def split: prod.splits sum.splits)

lemma book_loop_probes: "probes (fst (book_loop e spec a v w)) = probes w"
proof (induction e spec a v w rule: book_loop.induct)
  case (1 e spec a v w)
  show ?case
    using 1 chapter_step_probes [of e spec a v w]
    by (subst book_loop.simps) (auto split: prod.splits sum.splits)
qed

lemma generate_one_book_probes: "probes (fst (generate_one_book e spec a w)) = probes w"
  using book_loop_probes [of e spec a "snd (load_vars e spec a w)" "fst (load_vars e spec a w)"]
  by (auto simp: generate_one_book_def finalize_def load_vars_def now_iso_def Let_def
           split: prod.splits sum.splits option.splits)

lemma run_books_probes: "probes (fst (run_books e a specs gen w)) = probes w"
proof (induction specs arbitrary: gen w)
  case Nil
  then show ?case by simp
next
  case (Cons spec specs)
  show ?case
    using Cons [of _ "fst (generate_one_book e spec a w)"] generate_one_book_probes [of e spec a w]
    by (auto split: prod.splits sum.splits)
qed

text \<open>
  C10. \<^verbatim>\<open>main\<close> sends exactly one health check, to the tags URL of the endpoint, and
  its timeout is \<open>max 5 (min timeout_sec 30)\<close>: at least 5 and at most 30 seconds. For a
  configured timeout below 5 the health check therefore waits longer than configured.
\<close>

theorem health_check_timeout_clamped:
  "probes (fst (main e a specs w)) =
     probes w @ [(rstrip_char CHR ''/'' (endpoint a) @ ''/api/tags'', max 5 (min (timeout_sec a) 30))]
   \<and> 5 \<le> max 5 (min (timeout_sec a) 30) \<and> max 5 (min (timeout_sec a) 30) \<le> 30
   \<and> (timeout_sec a < 5 \<longrightarrow> timeout_sec a < snd (last (probes (fst (main e a specs w)))))"
proof -
  let ?t = "max 5 (min (timeout_sec a) 30)"
  let ?c = "check_ollama e (endpoint a) ?t w"
  have c: "probes (fst ?c) = probes w @ [(rstrip_char CHR ''/'' (endpoint a) @ ''/api/tags'', ?t)]"
    by (auto simp: check_ollama_def Let_def split: probe_outcome.splits)
  have m: "probes (fst (main e a specs w)) = probes (fst ?c)"
    using run_books_probes [of e a specs "[]" "fst ?c"]
    by (auto simp: main_def split: prod.splits sum.splits option.splits)
  show ?thesis unfolding m c by auto
qed


theorem health_check_timeout_clamped_witness:
  "timeout_sec (sample_args\<lparr>timeout_sec := 2\<rparr>) < 5 \<and>
   snd (last (probes (fst (main sample_env (sample_args\<lparr>timeout_sec := 2\<rparr>) [] empty_world)))) = 5"
  using health_check_timeout_clamped [of sample_env "sample_args\<lparr>timeout_sec := 2\<rparr>" "[]" empty_world]
  by (simp add: sample_args_def empty_world_def)

section \<open>What one call and one iteration change\<close>

lemma attempt_loop_unfold:
  "attempt_loop e rq retries k w =
     (case attempt_result e rq (length (posts w)) of
        Inr t \<Rightarrow> (w\<lparr>posts := posts w @ [rq]\<rparr>, Inr t)
      | Inl exc \<Rightarrow>
          if \<not> caught_by_transport exc then (w\<lparr>posts := posts w @ [rq]\<rparr>, Inl exc)
          else if retries \<le> k + 1
          then (w\<lparr>posts := posts w @ [rq]\<rparr>,
                Inl (Exn RuntimeError
                  (''Ollama generation failed after '' @ str_int (k + 1) @
                   '' attempts: '' @ exn_str exc) (Some exc)))
          else attempt_loop e rq retries (k + 1)
                 (w\<lparr>posts := posts w @ [rq], sleeps := sleeps w @ [(k + 1) * 2]\<rparr>))"
  by (subst attempt_loop.simps) (simp add: attempt_once_def Let_def split: sum.splits)

lemma attempt_loop_frame:
  "\<exists>ps sl. fst (attempt_loop e rq retries k w) = w\<lparr>posts := ps, sleeps := sl\<rparr>"
proof (induction e rq retries k w rule: attempt_loop.induct)
  case (1 e rq retries k w)
  show ?case
  proof (cases "attempt_result e rq (length (posts w))")
    case (Inr t)
    then have "fst (attempt_loop e rq retries k w) = w\<lparr>posts := posts w @ [rq], sleeps := sleeps w\<rparr>"
      by (subst attempt_loop_unfold) simp
    then show ?thesis by blast
  next
    case (Inl exc)
    show ?thesis
    proof (cases "caught_by_transport exc \<and> \<not> retries \<le> k + 1")
      case False
      with Inl have "fst (attempt_loop e rq retries k w) = w\<lparr>posts := posts w @ [rq], sleeps := sleeps w\<rparr>"
        by (subst attempt_loop_unfold) auto
      then show ?thesis by blast
    next
      case True
      let ?w1 = "w\<lparr>posts := posts w @ [rq]\<rparr>"
      let ?w2 = "?w1\<lparr>sleeps := sleeps ?w1 @ [(k + 1) * 2]\<rparr>"
      from True Inl have eq: "attempt_loop e rq retries k w = attempt_loop e rq retries (k + 1) ?w2"
        by (subst attempt_loop_unfold) simp
      have "\<exists>ps sl. fst (attempt_loop e rq retries (k + 1) ?w2) = ?w2\<lparr>posts := ps, sleeps := sl\<rparr>"
        using 1 [OF refl, of ?w1 "Inl exc" exc] True Inl by (simp add: attempt_once_def)
      then obtain ps sl where
        "fst (attempt_loop e rq retries (k + 1) ?w2) = ?w2\<lparr>posts := ps, sleeps := sl\<rparr>"
        by blast
      with eq have "fst (attempt_loop e rq retries k w) = w\<lparr>posts := ps, sleeps := sl\<rparr>" by simp
      then show ?thesis by blast
    qed
  qed
qed

lemma ollama_generate_frame:
  "\<exists>ps sl. fst (ollama_generate e ep m sys p t temp sd r w) =
     w\<lparr>gen_calls := gen_calls w @ [generate_request ep m sys p t temp sd], posts := ps, sleeps := sl\<rparr>"
proof -
  let ?rq = "generate_request ep m sys p t temp sd"
  obtain ps sl where "fst (attempt_loop e ?rq r 0 (w\<lparr>gen_calls := gen_calls w @ [?rq]\<rparr>))
      = (w\<lparr>gen_calls := gen_calls w @ [?rq]\<rparr>)\<lparr>posts := ps, sleeps := sl\<rparr>"
    using attempt_loop_frame by blast
  then show ?thesis by (auto simp: ollama_generate_def Let_def)
qed

lemma ollama_generate_gen_calls:
  "gen_calls (fst (ollama_generate e ep m sys p t temp sd r w)) =
     gen_calls w @ [generate_request ep m sys p t temp sd]"
  using ollama_generate_frame [of e ep m sys p t temp sd r w] by auto


lemma record_chapter_Inr:
  assumes "record_chapter e spec a n t v w = (w', Inr v')"
  shows "chapters v' = chapters v @ [t]"
    and "\<exists>s. chapter_summaries v' = chapter_summaries v @ [s]"
    and "st_chapters (state v') = chapters v'"
    and "st_chapter_summaries (state v') = chapter_summaries v'"
    and "st_story_memory (state v') = story_memory v'"
    and "st_word_count (state v') = Some (count_words (manuscript_text (title spec) (chapters v')))"
    and "state_files w' (state_path a spec) = Some (state v')"
    and "book_files w' (book_path a spec) = Some (manuscript_text (title spec) (chapters v'))"
  using assms
  by (auto simp: record_chapter_def now_iso_def Let_def split: prod.splits sum.splits if_splits)

lemma chapter_step_Inr:
  assumes "chapter_step e spec a v w = (w', Inr v')"
  shows "\<exists>t w1. produce_chapter e spec a (length (chapters v) + 1) (story_memory v) w = (w1, Inr t)
               \<and> record_chapter e spec a (length (chapters v) + 1) t v w1 = (w', Inr v')"
  using assms by (auto simp: chapter_step_def Let_def split: prod.splits sum.splits)


section \<open>Stripping, and the three attempts of a call\<close>

lemma strip_hd: "strip s \<noteq> [] \<Longrightarrow> \<not> is_space (hd (strip s))"
  unfolding strip_def lstrip_def by (rule hd_dropWhile)

lemma rstrip_last: "rstrip s \<noteq> [] \<Longrightarrow> \<not> is_space (last (rstrip s))"
  unfolding rstrip_def by (simp add: last_rev hd_dropWhile)

lemma strip_last: "strip s \<noteq> [] \<Longrightarrow> \<not> is_space (last (strip s))"
proof -
  assume ne: "strip s \<noteq> []"
  have "rstrip s = takeWhile is_space (rstrip s) @ strip s"
    by (simp add: strip_def lstrip_def)
  then have "last (rstrip s) = last (strip s)"
    using ne by (metis last_appendR)
  moreover have "rstrip s \<noteq> []"
    using ne by (auto simp: strip_def lstrip_def)
  ultimately show ?thesis using rstrip_last by metis
qed

lemma strip_fixed:
  assumes "s \<noteq> []" "\<not> is_space (hd s)" "\<not> is_space (last s)"
  shows "strip s = s"
proof -
  from assms(1) obtain x xs where r: "rev s = x # xs" by (cases "rev s") auto
  then have "x = last s" by (metis last_rev list.sel(1) rev_rev_ident)
  with assms(3) have "dropWhile is_space (x # xs) = x # xs" by simp
  with r have "dropWhile is_space (rev s) = rev s" by (simp only:)
  then have "rstrip s = s" by (simp add: rstrip_def)
  moreover from assms(1,2) have "lstrip s = s" by (cases s) (auto simp: lstrip_def)
  ultimately show ?thesis by (simp add: strip_def)
qed

lemma strip_strip: "strip (strip s) = strip s"
proof (cases "strip s = []")
  case True
  have "strip [] = []" by (simp add: strip_def lstrip_def rstrip_def)
  with True show ?thesis by simp
next
  case False
  then show ?thesis by (intro strip_fixed strip_hd strip_last)
qed

lemma attempt_loop_three:
  "attempt_loop e rq 3 0 w =
     (case attempt_result e rq (length (posts w)) of
        Inr t \<Rightarrow> (w\<lparr>posts := posts w @ [rq]\<rparr>, Inr t)
      | Inl e1 \<Rightarrow>
          if \<not> caught_by_transport e1 then (w\<lparr>posts := posts w @ [rq]\<rparr>, Inl e1)
          else
            (case attempt_result e rq (length (posts w) + 1) of
               Inr t \<Rightarrow> (w\<lparr>posts := posts w @ [rq, rq], sleeps := sleeps w @ [2]\<rparr>, Inr t)
             | Inl e2 \<Rightarrow>
                 if \<not> caught_by_transport e2
                 then (w\<lparr>posts := posts w @ [rq, rq], sleeps := sleeps w @ [2]\<rparr>, Inl e2)
                 else
                   (case attempt_result e rq (length (posts w) + 2) of
                      Inr t \<Rightarrow>
                        (w\<lparr>posts := posts w @ [rq, rq, rq], sleeps := sleeps w @ [2, 4]\<rparr>, Inr t)
                    | Inl e3 \<Rightarrow>
                        if \<not> caught_by_transport e3
                        then (w\<lparr>posts := posts w @ [rq, rq, rq], sleeps := sleeps w @ [2, 4]\<rparr>,
                              Inl e3)
                        else (w\<lparr>posts := posts w @ [rq, rq, rq], sleeps := sleeps w @ [2, 4]\<rparr>,
                              Inl (Exn RuntimeError
                                (''Ollama generation failed after 3 attempts: '' @ exn_str e3)
                                (Some e3))))))"
proof -
  have s3: "str_int 3 = ''3''" by (simp add: str_int_def str_nat.simps)
  show ?thesis
    apply (subst attempt_loop_unfold)
    apply (subst attempt_loop_unfold)
    apply (subst attempt_loop_unfold)
    apply (simp add: s3 split: sum.splits)
    done
qed

lemma attempt_result_nonblank: "attempt_result e rq k = Inr t \<Longrightarrow> strip t \<noteq> []"
  by (auto simp: attempt_result_def Let_def strip_strip split: outcome.splits if_splits)

section \<open>The retry budget of the transport layer\<close>

text \<open>
  C6, amended. A call of \<^verbatim>\<open>ollama_generate\<close> with the default budget of 3 sends between
  one and three POSTs, all with the same request. Every attempt before the last one failed
  with an exception of a class that the handler catches (\<^verbatim>\<open>URLError\<close>,
  \<^verbatim>\<open>TimeoutError\<close>, \<^verbatim>\<open>JSONDecodeError\<close>, or \<^verbatim>\<open>RuntimeError\<close>, which a blank reply raises),
  and before the retry number \<open>i\<close> the call sleeps \<open>i * 2\<close> seconds. The call returns the
  stripped text of the first reply that is not blank, and that text is never blank. When
  the last attempt fails with a caught exception the budget is used up (three attempts)
  and the call raises a \<^verbatim>\<open>RuntimeError\<close> whose message and cause carry that last
  exception; an exception that the handler does not catch leaves the call as it is.
\<close>

theorem transport_retry_budget:
  "(let rq = generate_request ep m sys p t temp sd;
        r = ollama_generate e ep m sys p t temp sd 3 w;
        n0 = length (posts w);
        n = length (posts (fst r)) - n0
    in 1 \<le> n \<and> n \<le> 3
       \<and> posts (fst r) = posts w @ replicate n rq
       \<and> sleeps (fst r) = sleeps w @ map (\<lambda>i. int i * 2) [1..<n]
       \<and> (\<forall>i. i + 1 < n \<longrightarrow>
             (\<exists>exc. attempt_result e rq (n0 + i) = Inl exc \<and> caught_by_transport exc))
       \<and> snd r =
           (case attempt_result e rq (n0 + n - 1) of
              Inr text \<Rightarrow> Inr text
            | Inl exc \<Rightarrow>
                if caught_by_transport exc
                then Inl (Exn RuntimeError
                       (''Ollama generation failed after 3 attempts: '' @ exn_str exc) (Some exc))
                else Inl exc)
       \<and> ((\<exists>exc. attempt_result e rq (n0 + n - 1) = Inl exc \<and> caught_by_transport exc)
            \<longrightarrow> n = 3)
       \<and> (\<forall>text. snd r = Inr text \<longrightarrow> strip text \<noteq> []))"
proof -
  let ?rq = "generate_request ep m sys p t temp sd"
  let ?w0 = "w\<lparr>gen_calls := gen_calls w @ [?rq]\<rparr>"
  have r: "ollama_generate e ep m sys p t temp sd 3 w = attempt_loop e ?rq 3 0 ?w0"
    by (simp add: ollama_generate_def Let_def)
  have l: "[Suc 0..<2] = [1::nat]" "[Suc 0..<3] = [1::nat, 2]"
    "\<And>x::request. replicate 2 x = [x, x]" "\<And>x::request. replicate 3 x = [x, x, x]"
    by (simp_all add: upt_rec numeral_2_eq_2 numeral_3_eq_3)
  have i2: "\<And>i::nat. i + 1 < 2 \<longleftrightarrow> i = 0" by auto
  have i3: "\<And>i::nat. i + 1 < 3 \<longleftrightarrow> i = 0 \<or> i = 1" by auto
  show ?thesis
  proof (cases "attempt_result e ?rq (length (posts w))")
    case (Inr t1)
    then show ?thesis
      by (simp add: Let_def r attempt_loop_three attempt_result_nonblank)
  next
    case e1: (Inl e1)
    show ?thesis
    proof (cases "caught_by_transport e1")
      case False
      with e1 show ?thesis by (simp add: Let_def r attempt_loop_three)
    next
      case c1: True
      show ?thesis
      proof (cases "attempt_result e ?rq (length (posts w) + 1)")
        case (Inr t2)
        with e1 c1 show ?thesis
          by (simp add: Let_def r attempt_loop_three attempt_result_nonblank l i2)
      next
        case e2: (Inl e2)
        show ?thesis
        proof (cases "caught_by_transport e2")
          case False
          with e1 c1 e2 show ?thesis by (simp add: Let_def r attempt_loop_three l i2)
        next
          case c2: True
          show ?thesis
          proof (cases "attempt_result e ?rq (length (posts w) + 2)")
            case (Inr t3)
            with e1 c1 e2 c2 show ?thesis
              by (auto simp: Let_def r attempt_loop_three attempt_result_nonblank l less_2_cases_iff)
          next
            case e3: (Inl e3)
            with e1 c1 e2 c2 show ?thesis
              by (auto simp: Let_def r attempt_loop_three l less_2_cases_iff)
          qed
        qed
      qed
    qed
  qed
qed

theorem transport_retry_budget_witness:
  "snd (ollama_generate flaky_env ''http://127.0.0.1:11434/'' ''llama3.1:8b'' ''s'' ''p'' 240 0.75 None 3
          empty_world) = Inr ''Chapter 1: Dawn.''
   \<and> length (posts (fst (ollama_generate flaky_env ''http://127.0.0.1:11434/'' ''llama3.1:8b'' ''s'' ''p''
          240 0.75 None 3 empty_world))) = 3
   \<and> sleeps (fst (ollama_generate flaky_env ''http://127.0.0.1:11434/'' ''llama3.1:8b'' ''s'' ''p''
          240 0.75 None 3 empty_world)) = [2, 4]
   \<and> (\<exists>exc. attempt_result flaky_env
                (generate_request ''http://127.0.0.1:11434/'' ''llama3.1:8b'' ''s'' ''p'' 240 0.75 None)
                0 = Inl exc \<and> caught_by_transport exc)
   \<and> (\<exists>exc. attempt_result flaky_env
                (generate_request ''http://127.0.0.1:11434/'' ''llama3.1:8b'' ''s'' ''p'' 240 0.75 None)
                1 = Inl exc \<and> caught_by_transport exc)"
proof -
  have ev: "ollama_generate flaky_env ''http://127.0.0.1:11434/'' ''llama3.1:8b'' ''s'' ''p'' 240 0.75 None 3
      empty_world =
    (empty_world\<lparr>gen_calls := [generate_request ''http://127.0.0.1:11434/'' ''llama3.1:8b'' ''s'' ''p'' 240 0.75 None],
       posts := replicate 3 (generate_request ''http://127.0.0.1:11434/'' ''llama3.1:8b'' ''s'' ''p'' 240 0.75 None),
       sleeps := [2, 4]\<rparr>, Inr ''Chapter 1: Dawn.'')"
    by (simp add: ollama_generate_def Let_def attempt_loop_three attempt_result_def flaky_env_def
        empty_world_def caught_by_transport_def strip_def lstrip_def rstrip_def is_space_def
        numeral_3_eq_3)
  have pw: "posts empty_world = []" "sleeps empty_world = []"
    by (simp_all add: empty_world_def)
  note T = transport_retry_budget [where ep = "''http://127.0.0.1:11434/''" and m = "''llama3.1:8b''"
        and sys = "''s''" and p = "''p''" and t = 240 and temp = "0.75" and sd = None
        and e = flaky_env and w = empty_world, unfolded Let_def ev]
  from T show ?thesis
    unfolding ev by (simp add: pw)
qed

text \<open>
  C6, as it is worded, fails: a network failure of a class outside the handler's four is
  not retried. With a budget of three attempts and the connection dropped at the first,
  the call sends one POST, does not sleep, and the exception leaves the call as it was
  raised, not wrapped in the terminal \<^verbatim>\<open>RuntimeError\<close>.
\<close>

theorem uncaught_failure_is_not_retried:
  "length (posts (fst (ollama_generate dropped_env ''http://127.0.0.1:11434'' ''llama3.1:8b''
       ''s'' ''p'' 240 0.75 None 3 empty_world))) = 1
   \<and> sleeps (fst (ollama_generate dropped_env ''http://127.0.0.1:11434'' ''llama3.1:8b''
       ''s'' ''p'' 240 0.75 None 3 empty_world)) = []
   \<and> snd (ollama_generate dropped_env ''http://127.0.0.1:11434'' ''llama3.1:8b''
       ''s'' ''p'' 240 0.75 None 3 empty_world)
      = Inl (Exn OtherException ''Remote end closed connection without response'' None)
   \<and> attempt_result dropped_env
        (generate_request ''http://127.0.0.1:11434'' ''llama3.1:8b'' ''s'' ''p'' 240 0.75 None) 0
      = Inl (Exn OtherException ''Remote end closed connection without response'' None)
   \<and> is_Exception (Exn OtherException ''Remote end closed connection without response'' None)
   \<and> \<not> caught_by_transport
          (Exn OtherException ''Remote end closed connection without response'' None)"
  by (simp add: ollama_generate_def Let_def attempt_loop_three attempt_result_def dropped_env_def
      empty_world_def caught_by_transport_def is_Exception_def)

section \<open>A service that always answers\<close>

lemma ollama_generate_answered:
  assumes "service e (length (posts w)) (generate_request ep m sys p t temp sd) = Responds T"
    and "strip T \<noteq> []"
  shows "ollama_generate e ep m sys p t temp sd r w =
     (w\<lparr>gen_calls := gen_calls w @ [generate_request ep m sys p t temp sd],
        posts := posts w @ [generate_request ep m sys p t temp sd]\<rparr>, Inr (strip T))"
  using assms
  by (simp add: ollama_generate_def Let_def attempt_loop_unfold [of e _ r 0] attempt_result_def)

lemma answered_produce:
  assumes a: "\<And>k rq. service e k rq = Responds T"
    and ne: "strip T \<noteq> []"
    and ch: "startswith (lower (strip T)) ''chapter ''"
  shows "\<exists>w1. produce_chapter e spec a n mem w = (w1, Inr (strip T))"
  by (simp add: produce_chapter_def Let_def ollama_generate_answered [OF a ne] strip_strip ch
      split: prod.splits)

lemma answered_record:
  assumes a: "\<And>k rq. service e k rq = Responds T"
    and ne: "strip T \<noteq> []"
  shows "\<exists>w' v'. record_chapter e spec a n t v w = (w', Inr v')
      \<and> chapters v' = chapters v @ [t]
      \<and> chapter_summaries v' = chapter_summaries v @ [strip T]
      \<and> story_memory v' = strip T"
  by (simp add: record_chapter_def summarize_chapter_def merge_memory_def now_iso_def Let_def
      ollama_generate_answered [OF a ne] strip_strip split: prod.splits)

lemma answered_step:
  assumes a: "\<And>k rq. service e k rq = Responds T"
    and ne: "strip T \<noteq> []"
    and ch: "startswith (lower (strip T)) ''chapter ''"
  shows "\<exists>w' v'. chapter_step e spec a v w = (w', Inr v')
      \<and> chapters v' = chapters v @ [strip T]
      \<and> chapter_summaries v' = chapter_summaries v @ [strip T]
      \<and> story_memory v' = strip T"
proof -
  obtain w1 where p: "produce_chapter e spec a (length (chapters v) + 1) (story_memory v) w
      = (w1, Inr (strip T))"
    using answered_produce [OF a ne ch] by blast
  show ?thesis
    using answered_record [OF a ne, of spec a "length (chapters v) + 1" "strip T" v w1]
    unfolding chapter_step_def Let_def p by simp
qed

lemma sample_reply:
  "strip ''Chapter 1: Dawn. The night was long.'' = ''Chapter 1: Dawn. The night was long.''"
  "startswith (lower ''Chapter 1: Dawn. The night was long.'') ''chapter ''"
  "count_words ''Chapter 1: Dawn. The night was long.'' = 7"
  "count_words ''Null Meridian'' = 2"
  by (simp_all add: strip_def lstrip_def rstrip_def is_space_def startswith_def lower_def
      ascii_lower_def count_words_def findall_words_def is_word_char_def)

lemma sample_step:
  "\<exists>w' v'. chapter_step sample_env spec a v w = (w', Inr v')
      \<and> chapters v' = chapters v @ [''Chapter 1: Dawn. The night was long.'']
      \<and> chapter_summaries v' = chapter_summaries v @ [''Chapter 1: Dawn. The night was long.'']
      \<and> story_memory v' = ''Chapter 1: Dawn. The night was long.''"
  using answered_step [of sample_env "''Chapter 1: Dawn. The night was long.''" spec a v w]
  by (simp add: sample_reply) (simp add: sample_env_def)

section \<open>The word count includes the title\<close>

text \<open>
  C9. The word count of the manuscript is the word count of the title plus the word
  counts of the chapters. The loop condition compares this sum with \<open>min_words\<close>, and
  the state document written at the end of an iteration stores this sum as its
  \<open>word_count\<close>: the words of the title count toward the goal.
\<close>

theorem manuscript_word_count_includes_title:
  "count_words (manuscript_text (title spec) chs) =
     count_words (title spec) + sum_list (map count_words chs)
   \<and> (loop_condition spec a chs \<longleftrightarrow>
        int (count_words (title spec) + sum_list (map count_words chs)) < min_words a \<and>
        int (length chs) < max_chapters a)
   \<and> (chapter_step e spec a v w = (w', Inr v') \<longrightarrow>
        (\<exists>doc. state_files w' (state_path a spec) = Some doc \<and> st_chapters doc = chapters v' \<and>
           st_word_count doc =
             Some (count_words (title spec) + sum_list (map count_words (chapters v')))))"
proof (intro conjI impI)
  show "count_words (manuscript_text (title spec) chs) =
     count_words (title spec) + sum_list (map count_words chs)"
    by (rule count_words_manuscript)
  show "loop_condition spec a chs \<longleftrightarrow>
        int (count_words (title spec) + sum_list (map count_words chs)) < min_words a \<and>
        int (length chs) < max_chapters a"
    by (simp add: loop_condition_def count_words_manuscript)
next
  assume "chapter_step e spec a v w = (w', Inr v')"
  then obtain t w1 where r: "record_chapter e spec a (length (chapters v) + 1) t v w1 = (w', Inr v')"
    using chapter_step_Inr by blast
  show "\<exists>doc. state_files w' (state_path a spec) = Some doc \<and> st_chapters doc = chapters v' \<and>
           st_word_count doc =
             Some (count_words (title spec) + sum_list (map count_words (chapters v')))"
    using record_chapter_Inr(3,6,7) [OF r] by (simp add: count_words_manuscript)
qed

theorem manuscript_word_count_includes_title_witness:
  "count_words (manuscript_text ''Null Meridian'' [''Chapter 1: Dawn. The night was long.'']) = 9
   \<and> (\<exists>doc. state_files
          (fst (chapter_step sample_env sample_spec sample_args
                 (snd (load_vars sample_env sample_spec sample_args empty_world)) empty_world))
          (state_path sample_args sample_spec) = Some doc
        \<and> st_word_count doc = Some 9)"
proof -
  let ?v = "snd (load_vars sample_env sample_spec sample_args empty_world)"
  have v: "chapters ?v = []"
    by (simp add: load_vars_def empty_world_def now_iso_def Let_def)
  obtain w' v' where s: "chapter_step sample_env sample_spec sample_args ?v empty_world = (w', Inr v')"
    and c: "chapters v' = chapters ?v @ [''Chapter 1: Dawn. The night was long.'']"
    using sample_step by blast
  have t: "title sample_spec = ''Null Meridian''" by (simp add: sample_spec_def)
  show ?thesis
    using manuscript_word_count_includes_title [of sample_spec
        "[''Chapter 1: Dawn. The night was long.'']" sample_args sample_env ?v empty_world w' v'] s
    by (auto simp: c v t sample_reply)
qed

section \<open>The requests of one chapter\<close>

lemma produce_chapter_first_call:
  "\<exists>rest. gen_calls (fst (produce_chapter e spec a n mem w)) =
     gen_calls w @
     generate_request (endpoint a) (model a)
       (fst (make_chapter_prompt spec n (chapter_goal_for spec n) mem (target_chapter_words a)))
       (snd (make_chapter_prompt spec n (chapter_goal_for spec n) mem (target_chapter_words a)))
       (timeout_sec a) 0.75 (seed a) # rest"
proof -
  let ?sys = "fst (make_chapter_prompt spec n (chapter_goal_for spec n) mem (target_chapter_words a))"
  let ?p = "snd (make_chapter_prompt spec n (chapter_goal_for spec n) mem (target_chapter_words a))"
  let ?g = "ollama_generate e (endpoint a) (model a) ?sys ?p (timeout_sec a) 0.75 (seed a) 3 w"
  have g: "gen_calls (fst ?g) =
      gen_calls w @ [generate_request (endpoint a) (model a) ?sys ?p (timeout_sec a) 0.75 (seed a)]"
    by (rule ollama_generate_gen_calls)
  have r: "\<And>sys p temp w1. gen_calls (fst (ollama_generate e (endpoint a) (model a) sys p (timeout_sec a)
        temp (seed a) 3 w1)) = gen_calls w1 @ [generate_request (endpoint a) (model a) sys p (timeout_sec a) temp (seed a)]"
    by (rule ollama_generate_gen_calls)
  show ?thesis
  proof (cases ?g)
    case (Pair w1 res)
    with g have g1: "gen_calls w1 = gen_calls w @
        [generate_request (endpoint a) (model a) ?sys ?p (timeout_sec a) 0.75 (seed a)]"
      by simp
    show ?thesis
    proof (cases res)
      case (Inl exc)
      with Pair g1 show ?thesis
        by (simp add: produce_chapter_def Let_def split_beta)
    next
      case (Inr response)
      with Pair g1 show ?thesis
        using r [of _ _ "0.8" w1]
        by (auto simp: produce_chapter_def Let_def split_beta split: prod.splits sum.splits)
    qed
  qed
qed

section \<open>Filler chapters, and the first request of an iteration\<close>

lemma count_words_filler_tail:
  "count_words (s @ concat (replicate n '' word'')) = count_words s + n"
proof (induction n arbitrary: s)
  case 0
  then show ?case by simp
next
  case (Suc n)
  have sp: "\<not> is_word_char CHR '' ''" by (simp add: is_word_char_def)
  have w: "count_words ''word'' = 1"
    by (simp add: count_words_def findall_words_def is_word_char_def)
  have "count_words (s @ CHR '' '' # ''word'') = count_words s + count_words ''word''"
    by (rule count_words_sep [OF sp])
  with w have "count_words (s @ '' word'') = count_words s + 1" by simp
  with Suc [of "s @ '' word''"] show ?case by simp
qed

lemma count_words_filler: "count_words (filler_chapter n) = n + 2"
proof -
  have "count_words ''Chapter one'' = 2"
    by (simp add: count_words_def findall_words_def is_word_char_def)
  then show ?thesis unfolding filler_chapter_def count_words_filler_tail by simp
qed

lemma last_filler_tail:
  "s \<noteq> [] \<Longrightarrow> last (s @ concat (replicate n '' word'')) = (if n = 0 then last s else CHR ''d'')"
proof (induction n arbitrary: s)
  case 0
  then show ?case by simp
next
  case (Suc n)
  from Suc(1) [of "s @ '' word''"] show ?case by (cases n) auto
qed

lemma strip_filler: "strip (filler_chapter n) = filler_chapter n"
proof (rule strip_fixed)
  show "filler_chapter n \<noteq> []" by (simp add: filler_chapter_def)
  show "\<not> is_space (hd (filler_chapter n))" by (simp add: filler_chapter_def is_space_def)
  have "last (filler_chapter n) = (if n = 0 then CHR ''e'' else CHR ''d'')"
    unfolding filler_chapter_def by (subst last_filler_tail) simp_all
  then show "\<not> is_space (last (filler_chapter n))" by (simp add: is_space_def)
qed

lemma filler_marker: "startswith (lower (filler_chapter n)) ''chapter ''"
  by (simp add: filler_chapter_def startswith_def lower_def ascii_lower_def)

lemma filler_step:
  "\<exists>w' v'. chapter_step (filler_env n) spec a v w = (w', Inr v')
      \<and> chapters v' = chapters v @ [filler_chapter n]
      \<and> chapter_summaries v' = chapter_summaries v @ [filler_chapter n]
      \<and> story_memory v' = filler_chapter n"
  using answered_step [of "filler_env n" "filler_chapter n" spec a v w]
  by (simp add: strip_filler filler_marker) (simp add: filler_env_def filler_chapter_def)

lemma record_chapter_gen_calls:
  "\<exists>more. gen_calls (fst (record_chapter e spec a n t v w)) = gen_calls w @ more"
proof -
  have r: "\<And>sys p temp w0 w1 res. ollama_generate e (endpoint a) (model a) sys p (timeout_sec a)
        temp (seed a) 3 w0 = (w1, res) \<Longrightarrow>
      gen_calls w1 = gen_calls w0 @ [generate_request (endpoint a) (model a) sys p (timeout_sec a) temp (seed a)]"
    using ollama_generate_gen_calls by (metis fst_conv)
  show ?thesis
    by (auto simp: record_chapter_def summarize_chapter_def merge_memory_def now_iso_def Let_def
        split: prod.splits sum.splits if_splits dest!: r)
qed

lemma chapter_step_first_call:
  "\<exists>rest. gen_calls (fst (chapter_step e spec a v w)) =
     gen_calls w @
     generate_request (endpoint a) (model a)
       (fst (make_chapter_prompt spec (length (chapters v) + 1)
              (chapter_goal_for spec (length (chapters v) + 1)) (story_memory v)
              (target_chapter_words a)))
       (snd (make_chapter_prompt spec (length (chapters v) + 1)
              (chapter_goal_for spec (length (chapters v) + 1)) (story_memory v)
              (target_chapter_words a)))
       (timeout_sec a) 0.75 (seed a) # rest"
proof -
  let ?n = "length (chapters v) + 1"
  let ?p = "produce_chapter e spec a ?n (story_memory v) w"
  obtain rest where p: "gen_calls (fst ?p) = gen_calls w @
     generate_request (endpoint a) (model a)
       (fst (make_chapter_prompt spec ?n (chapter_goal_for spec ?n) (story_memory v)
              (target_chapter_words a)))
       (snd (make_chapter_prompt spec ?n (chapter_goal_for spec ?n) (story_memory v)
              (target_chapter_words a)))
       (timeout_sec a) 0.75 (seed a) # rest"
    using produce_chapter_first_call by blast
  show ?thesis
  proof (cases ?p)
    case (Pair w1 res)
    show ?thesis
    proof (cases res)
      case (Inl exc)
      with Pair p show ?thesis unfolding chapter_step_def Let_def by simp
    next
      case (Inr t)
      obtain more where "gen_calls (fst (record_chapter e spec a ?n t v w1)) = gen_calls w1 @ more"
        using record_chapter_gen_calls by blast
      with Pair Inr p show ?thesis unfolding chapter_step_def Let_def by simp
    qed
  qed
qed

section \<open>The objective of a chapter\<close>

text \<open>
  C8. For a chapter number \<open>n\<close> from 1 up to the length of the book's list of objectives,
  the chapter goal is the objective at index \<open>n - 1\<close>; for every larger \<open>n\<close> it is the
  fixed escalation objective. The first request of an iteration carries the prompt built
  with the goal of chapter number \<open>len(chapters) + 1\<close>, so a book can grow past its
  outline.
\<close>

theorem chapter_goal_selection:
  "(1 \<le> n \<and> n \<le> length (chapter_plans spec) \<longrightarrow>
      chapter_goal_for spec n = chapter_plans spec ! (n - 1))
   \<and> (length (chapter_plans spec) < n \<longrightarrow> chapter_goal_for spec n = escalation_goal)
   \<and> rq_prompt (gen_calls (fst (chapter_step e spec a v w)) ! length (gen_calls w)) =
       snd (make_chapter_prompt spec (length (chapters v) + 1)
              (chapter_goal_for spec (length (chapters v) + 1)) (story_memory v)
              (target_chapter_words a))"
proof -
  obtain rest where "gen_calls (fst (chapter_step e spec a v w)) =
     gen_calls w @
     generate_request (endpoint a) (model a)
       (fst (make_chapter_prompt spec (length (chapters v) + 1)
              (chapter_goal_for spec (length (chapters v) + 1)) (story_memory v)
              (target_chapter_words a)))
       (snd (make_chapter_prompt spec (length (chapters v) + 1)
              (chapter_goal_for spec (length (chapters v) + 1)) (story_memory v)
              (target_chapter_words a)))
       (timeout_sec a) 0.75 (seed a) # rest"
    using chapter_step_first_call by blast
  then show ?thesis
    by (simp add: chapter_goal_for_def generate_request_def)
qed

theorem chapter_goal_selection_witness:
  "chapter_goal_for sample_spec 2 = ''Mara discovers the breach.''
   \<and> chapter_goal_for sample_spec 3 = escalation_goal"
  using chapter_goal_selection [of 2 sample_spec sample_env sample_args
      "snd (load_vars sample_env sample_spec sample_args empty_world)" empty_world]
    chapter_goal_selection [of 3 sample_spec sample_env sample_args
      "snd (load_vars sample_env sample_spec sample_args empty_world)" empty_world]
  by (simp add: sample_spec_def)

section \<open>The loop, one iteration at a time\<close>

lemma book_loop_unfold:
  "book_loop e spec a v w =
     (if loop_condition spec a (chapters v)
      then case chapter_step e spec a v w of
             (w1, Inl exc) \<Rightarrow> (w1, Inl exc)
           | (w1, Inr v1) \<Rightarrow> book_loop e spec a v1 w1
      else (w, Inr v))"
  by (rule book_loop.simps)

lemma book_loop_stop: "\<not> loop_condition spec a (chapters v) \<Longrightarrow> book_loop e spec a v w = (w, Inr v)"
  by (subst book_loop_unfold) simp

lemma book_loop_step:
  "loop_condition spec a (chapters v) \<Longrightarrow> chapter_step e spec a v w = (w1, Inr v1) \<Longrightarrow>
   book_loop e spec a v w = book_loop e spec a v1 w1"
  by (subst book_loop_unfold) simp

lemma book_loop_raise:
  "loop_condition spec a (chapters v) \<Longrightarrow> chapter_step e spec a v w = (w1, Inl exc) \<Longrightarrow>
   book_loop e spec a v w = (w1, Inl exc)"
  by (subst book_loop_unfold) simp

lemma chapter_step_appends:
  assumes "chapter_step e spec a v w = (w', Inr v')"
  shows "\<exists>t s. chapters v' = chapters v @ [t] \<and> chapter_summaries v' = chapter_summaries v @ [s]"
proof -
  obtain t w1 where "record_chapter e spec a (length (chapters v) + 1) t v w1 = (w', Inr v')"
    using chapter_step_Inr [OF assms] by blast
  from record_chapter_Inr(1,2) [OF this] show ?thesis by blast
qed

lemma book_loop_appends:
  "book_loop e spec a v w = (w', Inr v') \<Longrightarrow>
   \<exists>ts ss. chapters v' = chapters v @ ts \<and> chapter_summaries v' = chapter_summaries v @ ss
     \<and> length ts = length ss"
proof (induction e spec a v w arbitrary: w' v' rule: book_loop.induct)
  case (1 e spec a v w)
  show ?case
  proof (cases "loop_condition spec a (chapters v)")
    case False
    with "1.prems" have "v' = v" by (simp add: book_loop_stop)
    then show ?thesis by simp
  next
    case True
    obtain w1 r where s: "chapter_step e spec a v w = (w1, r)" by fastforce
    show ?thesis
    proof (cases r)
      case (Inl exc)
      with True s "1.prems" show ?thesis by (simp add: book_loop_raise)
    next
      case (Inr v1)
      with True s "1.prems" have l: "book_loop e spec a v1 w1 = (w', Inr v')"
        by (simp add: book_loop_step)
      from "1.IH" [OF True s [symmetric] Inr l] obtain ts ss where
        i: "chapters v' = chapters v1 @ ts" "chapter_summaries v' = chapter_summaries v1 @ ss"
           "length ts = length ss" by blast
      from chapter_step_appends [OF s [unfolded Inr]] obtain t sm where
        "chapters v1 = chapters v @ [t]" "chapter_summaries v1 = chapter_summaries v @ [sm]"
        by blast
      with i have "chapters v' = chapters v @ (t # ts)"
        "chapter_summaries v' = chapter_summaries v @ (sm # ss)" "length (t # ts) = length (sm # ss)"
        by simp_all
      then show ?thesis by blast
    qed
  qed
qed

section \<open>Chapters and summaries grow together\<close>

text \<open>
  C7. An iteration that completes appends exactly one chapter and exactly one summary
  and does not lower the word count of the manuscript. The state document it writes holds
  the two extended lists, so they have the same length in every written document whenever
  they had the same length when the iteration began. Over the whole loop both lists only
  grow at the end, by the same number of entries.
\<close>

theorem chapter_step_appends_one:
  "(chapter_step e spec a v w = (w', Inr v') \<longrightarrow>
      (\<exists>t. chapters v' = chapters v @ [t])
      \<and> (\<exists>s. chapter_summaries v' = chapter_summaries v @ [s])
      \<and> length (chapters v') = length (chapters v) + 1
      \<and> length (chapter_summaries v') = length (chapter_summaries v) + 1
      \<and> count_words (manuscript_text (title spec) (chapters v))
          \<le> count_words (manuscript_text (title spec) (chapters v'))
      \<and> (\<exists>doc. state_files w' (state_path a spec) = Some doc
            \<and> st_chapters doc = chapters v'
            \<and> st_chapter_summaries doc = chapter_summaries v'
            \<and> (length (chapters v) = length (chapter_summaries v) \<longrightarrow>
                 length (st_chapters doc) = length (st_chapter_summaries doc))))
   \<and> (book_loop e spec a v w = (w2, Inr v2) \<longrightarrow>
        (\<exists>ts ss. chapters v2 = chapters v @ ts \<and> chapter_summaries v2 = chapter_summaries v @ ss
           \<and> length ts = length ss)
        \<and> (length (chapters v) = length (chapter_summaries v) \<longrightarrow>
             length (chapters v2) = length (chapter_summaries v2)))"
proof (intro conjI impI)
  assume s: "chapter_step e spec a v w = (w', Inr v')"
  obtain t w1 where r: "record_chapter e spec a (length (chapters v) + 1) t v w1 = (w', Inr v')"
    using chapter_step_Inr [OF s] by blast
  note R = record_chapter_Inr [OF r]
  from R(1) show "\<exists>t. chapters v' = chapters v @ [t]" by blast
  from R(2) show "\<exists>s. chapter_summaries v' = chapter_summaries v @ [s]" .
  from R(1) show "length (chapters v') = length (chapters v) + 1" by simp
  from R(2) show "length (chapter_summaries v') = length (chapter_summaries v) + 1" by auto
  from R(1) show "count_words (manuscript_text (title spec) (chapters v))
          \<le> count_words (manuscript_text (title spec) (chapters v'))"
    by (simp add: count_words_manuscript)
  from R show "\<exists>doc. state_files w' (state_path a spec) = Some doc
            \<and> st_chapters doc = chapters v'
            \<and> st_chapter_summaries doc = chapter_summaries v'
            \<and> (length (chapters v) = length (chapter_summaries v) \<longrightarrow>
                 length (st_chapters doc) = length (st_chapter_summaries doc))"
    by auto
next
  assume l: "book_loop e spec a v w = (w2, Inr v2)"
  from book_loop_appends [OF l]
  show "\<exists>ts ss. chapters v2 = chapters v @ ts \<and> chapter_summaries v2 = chapter_summaries v @ ss
           \<and> length ts = length ss" .
  assume "length (chapters v) = length (chapter_summaries v)"
  with book_loop_appends [OF l]
  show "length (chapters v2) = length (chapter_summaries v2)" by auto
qed

theorem chapter_step_appends_one_witness:
  "(\<exists>w' v'. chapter_step sample_env sample_spec (sample_args\<lparr>max_chapters := 1\<rparr>)
               (snd (load_vars sample_env sample_spec (sample_args\<lparr>max_chapters := 1\<rparr>) empty_world))
               empty_world = (w', Inr v')
        \<and> length (chapters v') = 1 \<and> length (chapter_summaries v') = 1)
   \<and> (\<exists>w2 v2. book_loop sample_env sample_spec (sample_args\<lparr>max_chapters := 1\<rparr>)
               (snd (load_vars sample_env sample_spec (sample_args\<lparr>max_chapters := 1\<rparr>) empty_world))
               empty_world = (w2, Inr v2)
        \<and> length (chapters v2) = length (chapter_summaries v2))"
proof -
  let ?a = "sample_args\<lparr>max_chapters := 1\<rparr>"
  let ?v = "snd (load_vars sample_env sample_spec ?a empty_world)"
  have v: "chapters ?v = []" "chapter_summaries ?v = []"
    by (simp_all add: load_vars_def empty_world_def now_iso_def Let_def)
  obtain w' v' where s: "chapter_step sample_env sample_spec ?a ?v empty_world = (w', Inr v')"
    and c: "chapters v' = chapters ?v @ [''Chapter 1: Dawn. The night was long.'']"
    using sample_step by blast
  have t: "title sample_spec = ''Null Meridian''" by (simp add: sample_spec_def)
  have a: "min_words ?a = 40000" "max_chapters ?a = 1"
    by (simp_all add: sample_args_def)
  have go: "loop_condition sample_spec ?a (chapters ?v)"
    unfolding loop_condition_def count_words_manuscript v a t by (simp add: sample_reply)
  have stop: "\<not> loop_condition sample_spec ?a (chapters v')"
    unfolding loop_condition_def c v a by simp
  have l: "book_loop sample_env sample_spec ?a ?v empty_world = (w', Inr v')"
    using book_loop_step [OF go s] book_loop_stop [OF stop] by simp
  from chapter_step_appends_one [of sample_env sample_spec ?a ?v empty_world w' v' w' v'] s l v
  show ?thesis by auto
qed

section \<open>A short chapter is regenerated once\<close>

text \<open>
  C4. Let the first call for a chapter return a text, and let the chapter text be that
  text, stripped, with the synthetic heading in front when it does not open with the
  chapter marker. When the chapter text has fewer than \<open>max 900 (target div 2)\<close> words,
  exactly one more call is made: its prompt is built with the objective followed by
  \<^verbatim>\<open>" Write fuller scenes and dialogue."\<close> and with the target \<open>max target 2000\<close>, its
  temperature is higher than that of the first call, and whatever it returns is returned,
  stripped, as the chapter. Otherwise no further call is made and the chapter text is
  returned.
\<close>

theorem short_chapter_regenerated_once:
  "(let goal = chapter_goal_for spec n;
        tgt = target_chapter_words a;
        p1 = make_chapter_prompt spec n goal mem tgt;
        p2 = make_chapter_prompt spec n (goal @ '' Write fuller scenes and dialogue.'') mem
               (max tgt 2000);
        rq1 = generate_request (endpoint a) (model a) (fst p1) (snd p1) (timeout_sec a) 0.75 (seed a);
        rq2 = generate_request (endpoint a) (model a) (fst p2) (snd p2) (timeout_sec a) 0.8 (seed a);
        stripped = strip response;
        chapter_text =
          (if startswith (lower stripped) ''chapter '' then stripped
           else ''Chapter '' @ str_nat n @ '': Untitled\<newline>\<newline>'' @ stripped);
        r = produce_chapter e spec a n mem w
    in ollama_generate e (endpoint a) (model a) (fst p1) (snd p1) (timeout_sec a) 0.75 (seed a) 3 w
         = (w1, Inr response) \<longrightarrow>
       (if int (count_words chapter_text) < max 900 (tgt div 2)
        then gen_calls (fst r) = gen_calls w @ [rq1, rq2]
             \<and> rq_temperature rq1 < rq_temperature rq2
             \<and> (\<forall>w2 response2.
                   ollama_generate e (endpoint a) (model a) (fst p2) (snd p2) (timeout_sec a) 0.8
                     (seed a) 3 w1 = (w2, Inr response2) \<longrightarrow>
                   r = (w2, Inr (strip response2)))
             \<and> (\<forall>w2 exc.
                   ollama_generate e (endpoint a) (model a) (fst p2) (snd p2) (timeout_sec a) 0.8
                     (seed a) 3 w1 = (w2, Inl exc) \<longrightarrow>
                   r = (w2, Inl exc))
        else gen_calls (fst r) = gen_calls w @ [rq1] \<and> r = (w1, Inr chapter_text)))"
proof -
  let ?goal = "chapter_goal_for spec n"
  let ?tgt = "target_chapter_words a"
  let ?p1 = "make_chapter_prompt spec n ?goal mem ?tgt"
  let ?p2 = "make_chapter_prompt spec n (?goal @ '' Write fuller scenes and dialogue.'') mem
               (max ?tgt 2000)"
  let ?rq1 = "generate_request (endpoint a) (model a) (fst ?p1) (snd ?p1) (timeout_sec a) 0.75 (seed a)"
  let ?rq2 = "generate_request (endpoint a) (model a) (fst ?p2) (snd ?p2) (timeout_sec a) 0.8 (seed a)"
  let ?ct = "(if startswith (lower (strip response)) ''chapter '' then strip response
           else ''Chapter '' @ str_nat n @ '': Untitled\<newline>\<newline>'' @ strip response)"
  let ?first = "ollama_generate e (endpoint a) (model a) (fst ?p1) (snd ?p1) (timeout_sec a) 0.75
                  (seed a) 3 w"
  let ?second = "ollama_generate e (endpoint a) (model a) (fst ?p2) (snd ?p2) (timeout_sec a) 0.8
                  (seed a) 3 w1"
  let ?r = "produce_chapter e spec a n mem w"
  have tmp: "rq_temperature ?rq1 < rq_temperature ?rq2"
    by (simp add: generate_request_def)
  {
    assume h: "?first = (w1, Inr response)"
    have g1: "gen_calls w1 = gen_calls w @ [?rq1]"
      using ollama_generate_gen_calls [of e "endpoint a" "model a" "fst ?p1" "snd ?p1"
          "timeout_sec a" "0.75" "seed a" 3 w] h by simp
    have g2: "gen_calls (fst ?second) = gen_calls w1 @ [?rq2]"
      by (rule ollama_generate_gen_calls)
    have r: "?r = (if int (count_words ?ct) < max 900 (?tgt div 2)
                   then (case ?second of
                           (w2, Inl exc) \<Rightarrow> (w2, Inl exc)
                         | (w2, Inr response2) \<Rightarrow> (w2, Inr (strip response2)))
                   else (w1, Inr ?ct))"
      using h by (simp add: produce_chapter_def Let_def split_beta)
    have "if int (count_words ?ct) < max 900 (?tgt div 2)
        then gen_calls (fst ?r) = gen_calls w @ [?rq1, ?rq2]
             \<and> rq_temperature ?rq1 < rq_temperature ?rq2
             \<and> (\<forall>w2 response2. ?second = (w2, Inr response2) \<longrightarrow> ?r = (w2, Inr (strip response2)))
             \<and> (\<forall>w2 exc. ?second = (w2, Inl exc) \<longrightarrow> ?r = (w2, Inl exc))
        else gen_calls (fst ?r) = gen_calls w @ [?rq1] \<and> ?r = (w1, Inr ?ct)"
    proof (cases "int (count_words ?ct) < max 900 (?tgt div 2)")
      case False
      with r g1 show ?thesis by simp
    next
      case True
      with r have r2: "?r = (case ?second of
                           (w2, Inl exc) \<Rightarrow> (w2, Inl exc)
                         | (w2, Inr response2) \<Rightarrow> (w2, Inr (strip response2)))"
        by simp
      have "fst ?r = fst ?second"
        unfolding r2 by (cases ?second) (auto split: sum.splits)
      with g1 g2 have "gen_calls (fst ?r) = gen_calls w @ [?rq1, ?rq2]" by simp
      moreover have "\<forall>w2 response2. ?second = (w2, Inr response2) \<longrightarrow> ?r = (w2, Inr (strip response2))"
        unfolding r2 by simp
      moreover have "\<forall>w2 exc. ?second = (w2, Inl exc) \<longrightarrow> ?r = (w2, Inl exc)"
        unfolding r2 by simp
      ultimately show ?thesis using True tmp by simp
    qed
  }
  then show ?thesis unfolding Let_def by blast
qed

theorem short_chapter_regenerated_once_witness:
  "snd (produce_chapter sample_env sample_spec sample_args 1 ''No chapters yet.'' empty_world)
     = Inr ''Chapter 1: Dawn. The night was long.''
   \<and> length (gen_calls (fst (produce_chapter sample_env sample_spec sample_args 1
                ''No chapters yet.'' empty_world))) = 2
   \<and> snd (produce_chapter (filler_env 898) sample_spec sample_args 1 ''No chapters yet.'' empty_world)
     = Inr (filler_chapter 898)
   \<and> length (gen_calls (fst (produce_chapter (filler_env 898) sample_spec sample_args 1
                ''No chapters yet.'' empty_world))) = 1"
proof -
  let ?T = "''Chapter 1: Dawn. The night was long.''"
  let ?mem = "''No chapters yet.''"
  have tg: "target_chapter_words sample_args = 1800" by (simp add: sample_args_def)
  have gw: "gen_calls empty_world = []" by (simp add: empty_world_def)
  have sa: "\<And>k rq. service sample_env k rq = Responds ?T" by (simp add: sample_env_def)
  have fa: "\<And>k rq. service (filler_env 898) k rq = Responds (filler_chapter 898)"
    by (simp add: filler_env_def)
  have ne: "strip ?T \<noteq> []" by (simp add: sample_reply)
  have fne: "strip (filler_chapter 898) \<noteq> []"
    unfolding strip_filler by (simp add: filler_chapter_def)
  note s1 = ollama_generate_answered [OF sa ne, unfolded sample_reply(1)]
  note f1 = ollama_generate_answered [OF fa fne, unfolded strip_filler]
  note S = short_chapter_regenerated_once [where e = sample_env and spec = sample_spec
      and a = sample_args and n = 1 and mem = ?mem and w = empty_world and response = ?T,
      unfolded Let_def, rule_format, OF s1]
  note F = short_chapter_regenerated_once [where e = "filler_env 898" and spec = sample_spec
      and a = sample_args and n = 1 and mem = ?mem and w = empty_world
      and response = "filler_chapter 898",
      unfolded Let_def, rule_format, OF f1]
  have sc: "int (count_words (if startswith (lower (strip ?T)) ''chapter '' then strip ?T
      else ''Chapter '' @ str_nat 1 @ '': Untitled\<newline>\<newline>'' @ strip ?T))
      < max 900 (target_chapter_words sample_args div 2)"
    unfolding sample_reply(1) tg by (simp add: sample_reply)
  have fc: "\<not> int (count_words (if startswith (lower (strip (filler_chapter 898))) ''chapter ''
      then strip (filler_chapter 898)
      else ''Chapter '' @ str_nat 1 @ '': Untitled\<newline>\<newline>'' @ strip (filler_chapter 898)))
      < max 900 (target_chapter_words sample_args div 2)"
    unfolding strip_filler tg by (simp add: filler_marker count_words_filler)
  from S sc have S': "gen_calls (fst (produce_chapter sample_env sample_spec sample_args 1 ?mem empty_world))
      = gen_calls empty_world @ [
         generate_request (endpoint sample_args) (model sample_args)
           (fst (make_chapter_prompt sample_spec 1 (chapter_goal_for sample_spec 1) ?mem
                  (target_chapter_words sample_args)))
           (snd (make_chapter_prompt sample_spec 1 (chapter_goal_for sample_spec 1) ?mem
                  (target_chapter_words sample_args)))
           (timeout_sec sample_args) 0.75 (seed sample_args),
         generate_request (endpoint sample_args) (model sample_args)
           (fst (make_chapter_prompt sample_spec 1
                  (chapter_goal_for sample_spec 1 @ '' Write fuller scenes and dialogue.'') ?mem
                  (max (target_chapter_words sample_args) 2000)))
           (snd (make_chapter_prompt sample_spec 1
                  (chapter_goal_for sample_spec 1 @ '' Write fuller scenes and dialogue.'') ?mem
                  (max (target_chapter_words sample_args) 2000)))
           (timeout_sec sample_args) 0.8 (seed sample_args)]"
    and S2: "\<And>w2 response2.
         ollama_generate sample_env (endpoint sample_args) (model sample_args)
           (fst (make_chapter_prompt sample_spec 1
                  (chapter_goal_for sample_spec 1 @ '' Write fuller scenes and dialogue.'') ?mem
                  (max (target_chapter_words sample_args) 2000)))
           (snd (make_chapter_prompt sample_spec 1
                  (chapter_goal_for sample_spec 1 @ '' Write fuller scenes and dialogue.'') ?mem
                  (max (target_chapter_words sample_args) 2000)))
           (timeout_sec sample_args) 0.8 (seed sample_args) 3
           (empty_world\<lparr>gen_calls := gen_calls empty_world @
               [generate_request (endpoint sample_args) (model sample_args)
                 (fst (make_chapter_prompt sample_spec 1 (chapter_goal_for sample_spec 1) ?mem
                        (target_chapter_words sample_args)))
                 (snd (make_chapter_prompt sample_spec 1 (chapter_goal_for sample_spec 1) ?mem
                        (target_chapter_words sample_args)))
                 (timeout_sec sample_args) 0.75 (seed sample_args)],
             posts := posts empty_world @
               [generate_request (endpoint sample_args) (model sample_args)
                 (fst (make_chapter_prompt sample_spec 1 (chapter_goal_for sample_spec 1) ?mem
                        (target_chapter_words sample_args)))
                 (snd (make_chapter_prompt sample_spec 1 (chapter_goal_for sample_spec 1) ?mem
                        (target_chapter_words sample_args)))
                 (timeout_sec sample_args) 0.75 (seed sample_args)]\<rparr>) = (w2, Inr response2)
         \<Longrightarrow> produce_chapter sample_env sample_spec sample_args 1 ?mem empty_world
               = (w2, Inr (strip response2))"
    by (simp_all only: if_True)
  from S2 [OF s1] have s_res:
    "snd (produce_chapter sample_env sample_spec sample_args 1 ?mem empty_world) = Inr ?T"
    by (simp add: sample_reply)
  note Fe = F [unfolded if_not_P [OF fc]]
  note F' = Fe [THEN conjunct1]
  from Fe [THEN conjunct2] have F2:
    "snd (produce_chapter (filler_env 898) sample_spec sample_args 1 ?mem empty_world)
      = Inr (if startswith (lower (strip (filler_chapter 898))) ''chapter ''
      then strip (filler_chapter 898)
      else ''Chapter '' @ str_nat 1 @ '': Untitled\<newline>\<newline>'' @ strip (filler_chapter 898))"
    by (simp only: snd_conv)
  from F2 have f_res:
    "snd (produce_chapter (filler_env 898) sample_spec sample_args 1 ?mem empty_world)
      = Inr (filler_chapter 898)"
    by (simp add: strip_filler filler_marker)
  from S' F' s_res f_res show ?thesis
    by (simp add: gw)
qed

section \<open>The loop over a service that always answers\<close>

lemma answered_loop:
  assumes a: "\<And>k rq. service e k rq = Responds T"
    and ne: "strip T \<noteq> []"
    and ch: "startswith (lower (strip T)) ''chapter ''"
  shows "(\<forall>j<k. loop_condition spec a (chapters v @ replicate j (strip T))) \<Longrightarrow>
     \<not> loop_condition spec a (chapters v @ replicate k (strip T)) \<Longrightarrow>
     \<exists>w' v'. book_loop e spec a v w = (w', Inr v')
        \<and> chapters v' = chapters v @ replicate k (strip T)
        \<and> chapter_summaries v' = chapter_summaries v @ replicate k (strip T)"
proof (induction k arbitrary: v w)
  case 0
  then show ?case by (simp add: book_loop_stop)
next
  case (Suc k)
  from Suc.prems(1) have go: "loop_condition spec a (chapters v)" by force
  obtain w1 v1 where s: "chapter_step e spec a v w = (w1, Inr v1)"
    and c: "chapters v1 = chapters v @ [strip T]"
    and cs: "chapter_summaries v1 = chapter_summaries v @ [strip T]"
    using answered_step [OF a ne ch, of spec a v w] by blast
  have r: "\<And>j. chapters v1 @ replicate j (strip T) = chapters v @ replicate (Suc j) (strip T)"
    unfolding c by simp
  have 1: "\<forall>j<k. loop_condition spec a (chapters v1 @ replicate j (strip T))"
    unfolding r using Suc.prems(1) by auto
  have 2: "\<not> loop_condition spec a (chapters v1 @ replicate k (strip T))"
    unfolding r using Suc.prems(2) .
  from Suc.IH [OF 1 2, of w1] obtain w' v' where
    l: "book_loop e spec a v1 w1 = (w', Inr v')"
    and c': "chapters v' = chapters v1 @ replicate k (strip T)"
    and cs': "chapter_summaries v' = chapter_summaries v1 @ replicate k (strip T)"
    by blast
  have "book_loop e spec a v w = (w', Inr v')"
    using book_loop_step [OF go s] l by simp
  moreover have "chapters v' = chapters v @ replicate (Suc k) (strip T)"
    unfolding c' c by simp
  moreover have "chapter_summaries v' = chapter_summaries v @ replicate (Suc k) (strip T)"
    unfolding cs' cs by simp
  ultimately show ?case by blast
qed

lemma load_vars_fresh:
  assumes "state_files w (state_path a spec) = None"
  shows "chapters (snd (load_vars e spec a w)) = []"
    and "chapter_summaries (snd (load_vars e spec a w)) = []"
    and "story_memory (snd (load_vars e spec a w)) = ''No chapters yet.''"
    and "fst (load_vars e spec a w) = w\<lparr>ticks := Suc (ticks w)\<rparr>"
  using assms by (simp_all add: load_vars_def now_iso_def Let_def)

lemma load_vars_stored:
  assumes "state_files w (state_path a spec) = Some doc"
  shows "chapters (snd (load_vars e spec a w)) = st_chapters doc"
    and "chapter_summaries (snd (load_vars e spec a w)) = st_chapter_summaries doc"
    and "story_memory (snd (load_vars e spec a w)) = st_story_memory doc"
    and "state (snd (load_vars e spec a w)) = doc"
    and "fst (load_vars e spec a w) = w"
  using assms by (simp_all add: load_vars_def)

lemma generate_one_book_unfold:
  "generate_one_book e spec a w =
     (case book_loop e spec a (snd (load_vars e spec a w)) (fst (load_vars e spec a w)) of
        (w1, Inl exc) \<Rightarrow> (w1, Inl exc)
      | (w1, Inr v1) \<Rightarrow> finalize e spec a v1 w1)"
  by (simp add: generate_one_book_def split_beta)

section \<open>The metadata document and the length check\<close>

text \<open>
  C5. When the loop of \<^verbatim>\<open>generate_one_book\<close> has ended, the metadata document is
  written in every case: it holds the final word count, the number of chapters and all
  chapter summaries, and nothing else of the stored files changes. Only then is the length
  checked: a final word count below \<open>min_words\<close> raises a \<^verbatim>\<open>RuntimeError\<close> whose
  message names the count reached and the minimum asked for and suggests to increase
  \<^verbatim>\<open>--max-chapters\<close> or \<^verbatim>\<open>--target-chapter-words\<close>, and the world it leaves behind holds
  the metadata document; a final word count of at least \<open>min_words\<close> raises nothing and the
  path of the manuscript is returned.
\<close>

theorem metadata_written_before_length_check:
  "book_loop e spec a (snd (load_vars e spec a w)) (fst (load_vars e spec a w)) = (w1, Inr v1) \<longrightarrow>
   (let total_words = count_words (manuscript_text (title spec) (chapters v1));
        r = generate_one_book e spec a w
    in meta_files (fst r) = (meta_files w1)(meta_path a spec \<mapsto>
           \<lparr>m_title = title spec, m_genre = genre spec, m_model = model a,
            m_endpoint = endpoint a, m_total_words = total_words,
            m_chapters = length (chapters v1), m_target_min_words = min_words a,
            m_generated_at = clock e (ticks w1), m_state_file = state_path a spec,
            m_chapter_summaries = chapter_summaries v1\<rparr>)
       \<and> state_files (fst r) = state_files w1
       \<and> book_files (fst r) = book_files w1
       \<and> snd r =
           (if int total_words < min_words a
            then Inl (Exn RuntimeError
                   (title spec @ '' finished at '' @ str_nat total_words @
                    '' words, below requested minimum '' @ str_int (min_words a) @ ''. '' @
                    ''Increase --max-chapters or --target-chapter-words and rerun.'') None)
            else Inr (book_path a spec)))"
  by (simp add: generate_one_book_unfold finalize_def now_iso_def under_length_error_def Let_def)

theorem metadata_written_before_length_check_witness:
  "snd (generate_one_book sample_env sample_spec (sample_args\<lparr>max_chapters := 1\<rparr>) empty_world)
     = Inl (Exn RuntimeError
         (''Null Meridian finished at '' @ str_nat 9 @ '' words, below requested minimum '' @
          str_int 40000 @ ''. Increase --max-chapters or --target-chapter-words and rerun.'') None)
   \<and> map_option m_total_words
        (meta_files (fst (generate_one_book sample_env sample_spec
             (sample_args\<lparr>max_chapters := 1\<rparr>) empty_world))
           (meta_path (sample_args\<lparr>max_chapters := 1\<rparr>) sample_spec)) = Some 9
   \<and> snd (generate_one_book sample_env sample_spec (sample_args\<lparr>min_words := 5\<rparr>) empty_world)
     = Inr (book_path (sample_args\<lparr>min_words := 5\<rparr>) sample_spec)
   \<and> map_option m_total_words
        (meta_files (fst (generate_one_book sample_env sample_spec
             (sample_args\<lparr>min_words := 5\<rparr>) empty_world))
           (meta_path (sample_args\<lparr>min_words := 5\<rparr>) sample_spec)) = Some 9"
proof -
  let ?T = "''Chapter 1: Dawn. The night was long.''"
  let ?a = "sample_args\<lparr>max_chapters := 1\<rparr>"
  let ?b = "sample_args\<lparr>min_words := 5\<rparr>"
  have sa: "\<And>k rq. service sample_env k rq = Responds ?T" by (simp add: sample_env_def)
  have ne: "strip ?T \<noteq> []" by (simp add: sample_reply)
  have ch: "startswith (lower (strip ?T)) ''chapter ''" by (simp add: sample_reply)
  have t: "title sample_spec = ''Null Meridian''" by (simp add: sample_spec_def)
  have a: "min_words ?a = 40000" "max_chapters ?a = 1" by (simp_all add: sample_args_def)
  have b: "min_words ?b = 5" "max_chapters ?b = 32" by (simp_all add: sample_args_def)
  have fresh: "\<And>x. state_files empty_world x = None" by (simp add: empty_world_def)
  note va = load_vars_fresh(1,2) [OF fresh, where e = sample_env and a = ?a and spec = sample_spec]
  note vb = load_vars_fresh(1,2) [OF fresh, where e = sample_env and a = ?b and spec = sample_spec]
  have ca: "\<forall>j<1. loop_condition sample_spec ?a
      (chapters (snd (load_vars sample_env sample_spec ?a empty_world)) @ replicate j (strip ?T))"
    unfolding va loop_condition_def count_words_manuscript a t by (simp add: sample_reply)
  have sa': "\<not> loop_condition sample_spec ?a
      (chapters (snd (load_vars sample_env sample_spec ?a empty_world)) @ replicate 1 (strip ?T))"
    unfolding va loop_condition_def a by simp
  have cb: "\<forall>j<1. loop_condition sample_spec ?b
      (chapters (snd (load_vars sample_env sample_spec ?b empty_world)) @ replicate j (strip ?T))"
    unfolding vb loop_condition_def count_words_manuscript b t by (simp add: sample_reply)
  have sb': "\<not> loop_condition sample_spec ?b
      (chapters (snd (load_vars sample_env sample_spec ?b empty_world)) @ replicate 1 (strip ?T))"
    unfolding vb loop_condition_def count_words_manuscript b t by (simp add: sample_reply)
  obtain wa va' where la: "book_loop sample_env sample_spec ?a
        (snd (load_vars sample_env sample_spec ?a empty_world))
        (fst (load_vars sample_env sample_spec ?a empty_world)) = (wa, Inr va')"
    and cha: "chapters va' = [?T]"
    using answered_loop [OF sa ne ch ca sa',
        of "fst (load_vars sample_env sample_spec ?a empty_world)", unfolded va]
    by (auto simp: sample_reply)
  obtain wb vb' where lb: "book_loop sample_env sample_spec ?b
        (snd (load_vars sample_env sample_spec ?b empty_world))
        (fst (load_vars sample_env sample_spec ?b empty_world)) = (wb, Inr vb')"
    and chb: "chapters vb' = [?T]"
    using answered_loop [OF sa ne ch cb sb',
        of "fst (load_vars sample_env sample_spec ?b empty_world)", unfolded vb]
    by (auto simp: sample_reply)
  have n: "count_words (manuscript_text (title sample_spec) [?T]) = 9"
    unfolding count_words_manuscript t by (simp add: sample_reply)
  note A = metadata_written_before_length_check [of sample_env sample_spec ?a empty_world wa va',
      unfolded Let_def cha n, rule_format, OF la]
  note B = metadata_written_before_length_check [of sample_env sample_spec ?b empty_world wb vb',
      unfolded Let_def chb n, rule_format, OF lb]
  from A B show ?thesis
    unfolding a b t by simp
qed

section \<open>Where the loop ends\<close>

lemma book_loop_exit:
  "book_loop e spec a v w = (w', Inr v') \<Longrightarrow> \<not> loop_condition spec a (chapters v')"
proof (induction e spec a v w arbitrary: w' v' rule: book_loop.induct)
  case (1 e spec a v w)
  show ?case
  proof (cases "loop_condition spec a (chapters v)")
    case False
    with "1.prems" have "v' = v" by (simp add: book_loop_stop)
    with False show ?thesis by simp
  next
    case True
    obtain w1 r where s: "chapter_step e spec a v w = (w1, r)" by fastforce
    show ?thesis
    proof (cases r)
      case (Inl exc)
      with True s "1.prems" show ?thesis by (simp add: book_loop_raise)
    next
      case (Inr v1)
      with True s "1.prems" have l: "book_loop e spec a v1 w1 = (w', Inr v')"
        by (simp add: book_loop_step)
      from "1.IH" [OF True s [symmetric] Inr l] show ?thesis .
    qed
  qed
qed

lemma chapter_step_stored:
  assumes "chapter_step e spec a v w = (w', Inr v')"
  shows "state_files w' (state_path a spec) = Some (state v')"
    and "st_chapters (state v') = chapters v'"
    and "st_chapter_summaries (state v') = chapter_summaries v'"
    and "st_story_memory (state v') = story_memory v'"
    and "book_files w' (book_path a spec) = Some (manuscript_text (title spec) (chapters v'))"
proof -
  obtain t w1 where r: "record_chapter e spec a (length (chapters v) + 1) t v w1 = (w', Inr v')"
    using chapter_step_Inr [OF assms] by blast
  note R = record_chapter_Inr [OF r]
  show "state_files w' (state_path a spec) = Some (state v')" by (rule R(7))
  show "st_chapters (state v') = chapters v'" by (rule R(3))
  show "st_chapter_summaries (state v') = chapter_summaries v'" by (rule R(4))
  show "st_story_memory (state v') = story_memory v'" by (rule R(5))
  show "book_files w' (book_path a spec) = Some (manuscript_text (title spec) (chapters v'))"
    by (rule R(8))
qed

lemma book_loop_stored:
  "book_loop e spec a v w = (w', Inr v') \<Longrightarrow>
   (w' = w \<and> v' = v) \<or>
   (state_files w' (state_path a spec) = Some (state v')
    \<and> st_chapters (state v') = chapters v'
    \<and> st_chapter_summaries (state v') = chapter_summaries v'
    \<and> st_story_memory (state v') = story_memory v'
    \<and> book_files w' (book_path a spec) = Some (manuscript_text (title spec) (chapters v')))"
proof (induction e spec a v w arbitrary: w' v' rule: book_loop.induct)
  case (1 e spec a v w)
  show ?case
  proof (cases "loop_condition spec a (chapters v)")
    case False
    with "1.prems" show ?thesis by (simp add: book_loop_stop)
  next
    case True
    obtain w1 r where s: "chapter_step e spec a v w = (w1, r)" by fastforce
    show ?thesis
    proof (cases r)
      case (Inl exc)
      with True s "1.prems" show ?thesis by (simp add: book_loop_raise)
    next
      case (Inr v1)
      with True s "1.prems" have l: "book_loop e spec a v1 w1 = (w', Inr v')"
        by (simp add: book_loop_step)
      note S = chapter_step_stored [OF s [unfolded Inr]]
      from "1.IH" [OF True s [symmetric] Inr l] S show ?thesis by auto
    qed
  qed
qed

lemma finalize_after_loop:
  "book_loop e spec a (snd (load_vars e spec a w)) (fst (load_vars e spec a w)) = (w1, Inr v1) \<Longrightarrow>
   generate_one_book e spec a w = finalize e spec a v1 w1"
  by (simp add: generate_one_book_unfold)

lemma finalize_frame:
  "state_files (fst (finalize e spec a v w)) = state_files w"
  "book_files (fst (finalize e spec a v w)) = book_files w"
  "gen_calls (fst (finalize e spec a v w)) = gen_calls w"
  "posts (fst (finalize e spec a v w)) = posts w"
  "sleeps (fst (finalize e spec a v w)) = sleeps w"
  by (simp_all add: finalize_def now_iso_def Let_def)

lemma finalize_meta:
  "meta_files (fst (finalize e spec a v w)) (meta_path a spec) =
     Some \<lparr>m_title = title spec, m_genre = genre spec, m_model = model a,
           m_endpoint = endpoint a,
           m_total_words = count_words (manuscript_text (title spec) (chapters v)),
           m_chapters = length (chapters v), m_target_min_words = min_words a,
           m_generated_at = clock e (ticks w), m_state_file = state_path a spec,
           m_chapter_summaries = chapter_summaries v\<rparr>"
  by (simp add: finalize_def now_iso_def Let_def)

lemma finalize_result:
  "snd (finalize e spec a v w) =
     (if int (count_words (manuscript_text (title spec) (chapters v))) < min_words a
      then Inl (under_length_error spec a (count_words (manuscript_text (title spec) (chapters v))))
      else Inr (book_path a spec))"
  by (simp add: finalize_def now_iso_def Let_def)

section \<open>Three chapters of 1500 words against a minimum of 5000\<close>

lemma fixed_stub_loop:
  assumes a: "\<And>k rq. service e k rq = Responds T"
    and n: "count_words T = 1500"
    and ch: "startswith (lower (strip T)) ''chapter ''"
    and mw: "min_words a = 5000" and mc: "max_chapters a = 3"
    and fresh: "state_files w (state_path a spec) = None"
    and tt: "count_words (title spec) < 500"
  shows "\<exists>w1 v1. book_loop e spec a (snd (load_vars e spec a w)) (fst (load_vars e spec a w))
            = (w1, Inr v1)
          \<and> chapters v1 = [strip T, strip T, strip T]
          \<and> chapter_summaries v1 = [strip T, strip T, strip T]"
proof -
  have ns: "count_words (strip T) = 1500" using n by (simp add: count_words_strip)
  have ne: "strip T \<noteq> []"
  proof
    assume "strip T = []"
    with ns show False by (simp add: count_words_Nil)
  qed
  note v = load_vars_fresh(1,2) [OF fresh, where e = e]
  have go: "\<forall>j<3. loop_condition spec a
      (chapters (snd (load_vars e spec a w)) @ replicate j (strip T))"
    unfolding v loop_condition_def count_words_manuscript mw mc
    using tt by (auto simp: ns less_Suc_eq numeral_3_eq_3)
  have stop: "\<not> loop_condition spec a
      (chapters (snd (load_vars e spec a w)) @ replicate 3 (strip T))"
    unfolding v loop_condition_def mc by simp
  from answered_loop [OF a ne ch go stop, of "fst (load_vars e spec a w)", unfolded v]
  show ?thesis by (simp add: numeral_3_eq_3)
qed

lemma three_chapters_words:
  "count_words c = 1500 \<Longrightarrow>
   count_words (manuscript_text ttl [c, c, c]) = 4500 + count_words ttl"
  by (simp add: count_words_manuscript)

lemma fixed_stub_run:
  assumes a: "\<And>k rq. service e k rq = Responds T"
    and n: "count_words T = 1500"
    and ch: "startswith (lower (strip T)) ''chapter ''"
    and mw: "min_words a = 5000" and mc: "max_chapters a = 3"
    and fresh: "state_files w (state_path a spec) = None"
    and tt: "count_words (title spec) < 500"
  shows "snd (generate_one_book e spec a w)
           = Inl (under_length_error spec a (4500 + count_words (title spec)))"
    and "\<exists>m. meta_files (fst (generate_one_book e spec a w)) (meta_path a spec) = Some m
          \<and> m_chapters m = 3 \<and> m_total_words m = 4500 + count_words (title spec)"
    and "\<exists>doc. state_files (fst (generate_one_book e spec a w)) (state_path a spec) = Some doc
          \<and> st_chapters doc = [strip T, strip T, strip T]"
proof -
  obtain w1 v1 where l: "book_loop e spec a (snd (load_vars e spec a w)) (fst (load_vars e spec a w))
        = (w1, Inr v1)"
    and c: "chapters v1 = [strip T, strip T, strip T]"
    using fixed_stub_loop [OF assms] by blast
  have ns: "count_words (strip T) = 1500" using n by (simp add: count_words_strip)
  note g = finalize_after_loop [OF l]
  note tw = three_chapters_words [OF ns, of "title spec"]
  show "snd (generate_one_book e spec a w)
           = Inl (under_length_error spec a (4500 + count_words (title spec)))"
    unfolding g finalize_result c tw mw using tt by simp
  show "\<exists>m. meta_files (fst (generate_one_book e spec a w)) (meta_path a spec) = Some m
          \<and> m_chapters m = 3 \<and> m_total_words m = 4500 + count_words (title spec)"
    unfolding g finalize_meta c tw by simp
  have "chapters v1 \<noteq> chapters (snd (load_vars e spec a w))"
    unfolding c load_vars_fresh(1) [OF fresh] by simp
  with book_loop_stored [OF l]
  have "state_files w1 (state_path a spec) = Some (state v1)" "st_chapters (state v1) = chapters v1"
    by auto
  then show "\<exists>doc. state_files (fst (generate_one_book e spec a w)) (state_path a spec) = Some doc
          \<and> st_chapters doc = [strip T, strip T, strip T]"
    unfolding g finalize_frame c by simp
qed

section \<open>The loop bounds, and a run that ends at the chapter cap\<close>

lemma capped_args_simps:
  "min_words capped_args = 5000" "max_chapters capped_args = 3"
  "state_path capped_args sample_spec = state_path sample_args sample_spec"
  "meta_path capped_args sample_spec = meta_path sample_args sample_spec"
  by (simp_all add: capped_args_def sample_args_def state_path_def meta_path_def)

lemma filler_env_answers: "service (filler_env n) k rq = Responds (filler_chapter n)"
  by (simp add: filler_env_def)

lemma resumed_run:
  "generate_one_book e sample_spec capped_args resumed_world =
     finalize e sample_spec capped_args
       \<lparr>state = short_doc, chapters = st_chapters short_doc,
        chapter_summaries = st_chapter_summaries short_doc,
        story_memory = st_story_memory short_doc\<rparr> resumed_world"
proof -
  have s: "state_files resumed_world (state_path capped_args sample_spec) = Some short_doc"
    by (simp add: resumed_world_def)
  have l: "load_vars e sample_spec capped_args resumed_world =
     (resumed_world, \<lparr>state = short_doc, chapters = st_chapters short_doc,
        chapter_summaries = st_chapter_summaries short_doc,
        story_memory = st_story_memory short_doc\<rparr>)"
    unfolding load_vars_def s by simp
  have stop: "\<not> loop_condition sample_spec capped_args (st_chapters short_doc)"
    unfolding loop_condition_def capped_args_simps by (simp add: short_doc_def)
  show ?thesis
    unfolding generate_one_book_unfold l fst_conv snd_conv
    by (simp add: book_loop_stop stop)
qed

text \<open>
  C1, amended. The loop of \<^verbatim>\<open>generate_one_book\<close> goes on while the word count of the
  manuscript, title included, is below \<open>min_words\<close> and the number of chapters is below
  \<open>max_chapters\<close>: when it ends normally one of the two bounds is reached, and when one of
  them is reached on entry nothing is generated. Started with no stored state, with a
  service that answers every request with the same text of 1500 words opening with the
  chapter marker, \<open>min_words = 5000\<close>, \<open>max_chapters = 3\<close> and a title of fewer than 500
  words, the controller produces exactly three chapters, writes the metadata document with
  \<open>chapters = 3\<close> and \<open>total_words = 4500\<close> plus the words of the title, and then raises
  the under-length failure.
\<close>

theorem loop_bounds_and_capped_run:
  "(book_loop e spec a v w = (w', Inr v') \<longrightarrow>
      min_words a \<le> int (count_words (manuscript_text (title spec) (chapters v')))
      \<or> max_chapters a \<le> int (length (chapters v')))
   \<and> (min_words a \<le> int (count_words (manuscript_text (title spec) (chapters v)))
        \<or> max_chapters a \<le> int (length (chapters v)) \<longrightarrow>
      book_loop e spec a v w = (w, Inr v))
   \<and> ((\<forall>k rq. service e k rq = Responds T) \<and> count_words T = 1500
        \<and> startswith (lower (strip T)) ''chapter ''
        \<and> min_words a = 5000 \<and> max_chapters a = 3
        \<and> state_files w (state_path a spec) = None
        \<and> count_words (title spec) < 500 \<longrightarrow>
      (let r = generate_one_book e spec a w
       in snd r = Inl (under_length_error spec a (4500 + count_words (title spec)))
          \<and> (\<exists>m. meta_files (fst r) (meta_path a spec) = Some m
                \<and> m_chapters m = 3 \<and> m_total_words m = 4500 + count_words (title spec))
          \<and> (\<exists>doc. state_files (fst r) (state_path a spec) = Some doc
                \<and> st_chapters doc = [strip T, strip T, strip T])))"
proof (intro conjI impI)
  assume "book_loop e spec a v w = (w', Inr v')"
  from book_loop_exit [OF this]
  show "min_words a \<le> int (count_words (manuscript_text (title spec) (chapters v')))
      \<or> max_chapters a \<le> int (length (chapters v'))"
    by (auto simp: loop_condition_def)
next
  assume "min_words a \<le> int (count_words (manuscript_text (title spec) (chapters v)))
        \<or> max_chapters a \<le> int (length (chapters v))"
  then have "\<not> loop_condition spec a (chapters v)" by (auto simp: loop_condition_def)
  then show "book_loop e spec a v w = (w, Inr v)" by (rule book_loop_stop)
next
  assume h: "(\<forall>k rq. service e k rq = Responds T) \<and> count_words T = 1500
        \<and> startswith (lower (strip T)) ''chapter ''
        \<and> min_words a = 5000 \<and> max_chapters a = 3
        \<and> state_files w (state_path a spec) = None
        \<and> count_words (title spec) < 500"
  then have a: "\<And>k rq. service e k rq = Responds T" by simp
  from h have r: "count_words T = 1500" "startswith (lower (strip T)) ''chapter ''"
    "min_words a = 5000" "max_chapters a = 3" "state_files w (state_path a spec) = None"
    "count_words (title spec) < 500" by simp_all
  note R = fixed_stub_run [of e T, OF a r]
  from R show "let r = generate_one_book e spec a w
       in snd r = Inl (under_length_error spec a (4500 + count_words (title spec)))
          \<and> (\<exists>m. meta_files (fst r) (meta_path a spec) = Some m
                \<and> m_chapters m = 3 \<and> m_total_words m = 4500 + count_words (title spec))
          \<and> (\<exists>doc. state_files (fst r) (state_path a spec) = Some doc
                \<and> st_chapters doc = [strip T, strip T, strip T])"
    unfolding Let_def by blast
qed

theorem loop_bounds_and_capped_run_witness:
  "snd (generate_one_book (filler_env 1498) sample_spec capped_args empty_world)
     = Inl (under_length_error sample_spec capped_args 4502)
   \<and> (\<exists>m. meta_files (fst (generate_one_book (filler_env 1498) sample_spec capped_args empty_world))
             (meta_path capped_args sample_spec) = Some m
          \<and> m_chapters m = 3 \<and> m_total_words m = 4502)
   \<and> (\<exists>w' v'. book_loop (filler_env 1498) sample_spec capped_args
                 (snd (load_vars (filler_env 1498) sample_spec capped_args empty_world))
                 empty_world = (w', Inr v')
          \<and> length (chapters v') = 3
          \<and> max_chapters capped_args \<le> int (length (chapters v'))
          \<and> book_loop (filler_env 1498) sample_spec capped_args v' w' = (w', Inr v'))"
proof -
  let ?e = "filler_env 1498"
  let ?T = "filler_chapter 1498"
  let ?v = "snd (load_vars ?e sample_spec capped_args empty_world)"
  have n: "count_words ?T = 1500" by (simp add: count_words_filler)
  have ne: "strip ?T \<noteq> []" unfolding strip_filler by (simp add: filler_chapter_def)
  have ch: "startswith (lower (strip ?T)) ''chapter ''"
    by (simp add: strip_filler filler_marker)
  have fresh: "state_files empty_world (state_path capped_args sample_spec) = None"
    by (simp add: empty_world_def)
  have t2: "count_words (title sample_spec) = 2" by (simp add: sample_spec_def sample_reply)
  note v = load_vars_fresh(1) [OF fresh, where e = ?e]
  have go: "\<forall>j<3. loop_condition sample_spec capped_args (chapters ?v @ replicate j (strip ?T))"
    unfolding v loop_condition_def count_words_manuscript capped_args_simps t2 strip_filler
    by (auto simp: n less_Suc_eq numeral_3_eq_3)
  have stop: "\<not> loop_condition sample_spec capped_args (chapters ?v @ replicate 3 (strip ?T))"
    unfolding v loop_condition_def capped_args_simps by simp
  obtain w' v' where l: "book_loop ?e sample_spec capped_args ?v empty_world = (w', Inr v')"
    and c: "chapters v' = [?T, ?T, ?T]"
    using answered_loop [OF filler_env_answers ne ch go stop, of empty_world, unfolded v strip_filler]
    by (auto simp: numeral_3_eq_3)
  have len: "length (chapters v') = 3" unfolding c by simp
  have h3: "(\<forall>k rq. service ?e k rq = Responds ?T) \<and> count_words ?T = 1500
        \<and> startswith (lower (strip ?T)) ''chapter ''
        \<and> min_words capped_args = 5000 \<and> max_chapters capped_args = 3
        \<and> state_files empty_world (state_path capped_args sample_spec) = None
        \<and> count_words (title sample_spec) < 500"
    using n ch fresh by (simp add: filler_env_answers capped_args_simps t2)
  have h2: "min_words capped_args \<le> int (count_words (manuscript_text (title sample_spec) (chapters v')))
        \<or> max_chapters capped_args \<le> int (length (chapters v'))"
    unfolding len capped_args_simps by simp
  note A = loop_bounds_and_capped_run [of ?e sample_spec capped_args ?v empty_world w' v' ?T]
  note B = loop_bounds_and_capped_run [of ?e sample_spec capped_args v' w' w' v' ?T]
  from A have A1: "min_words capped_args
        \<le> int (count_words (manuscript_text (title sample_spec) (chapters v')))
      \<or> max_chapters capped_args \<le> int (length (chapters v'))"
    using l by blast
  from A h3 have A3: "snd (generate_one_book ?e sample_spec capped_args empty_world)
       = Inl (under_length_error sample_spec capped_args (4500 + count_words (title sample_spec)))
     \<and> (\<exists>m. meta_files (fst (generate_one_book ?e sample_spec capped_args empty_world))
               (meta_path capped_args sample_spec) = Some m
           \<and> m_chapters m = 3 \<and> m_total_words m = 4500 + count_words (title sample_spec))"
    unfolding Let_def by blast
  from B h2 have B2: "book_loop ?e sample_spec capped_args v' w' = (w', Inr v')" by blast
  have mc: "max_chapters capped_args \<le> int (length (chapters v'))"
    unfolding len capped_args_simps by simp
  from A3 [unfolded t2] l len mc B2 A1 show ?thesis by auto
qed

text \<open>
  C1, as it is worded, fails twice. The words of the title are counted: with the title
  \<open>Null Meridian\<close> and a reply of 1500 words to every request, a run from no stored state
  with \<open>min_words = 5000\<close> and \<open>max_chapters = 3\<close> records three chapters and
  \<open>total_words = 4502\<close>, not 4500. And the outcome depends on the stored state: when an
  earlier run has left three chapters of two words each, the same run sends no request and
  records \<open>total_words = 8\<close>.
\<close>

theorem total_words_at_cap_is_not_4500:
  "count_words (filler_chapter 1498) = 1500
   \<and> map_option m_total_words
        (meta_files (fst (generate_one_book (filler_env 1498) sample_spec capped_args empty_world))
           (meta_path capped_args sample_spec)) = Some 4502
   \<and> map_option m_chapters
        (meta_files (fst (generate_one_book (filler_env 1498) sample_spec capped_args empty_world))
           (meta_path capped_args sample_spec)) = Some 3
   \<and> map_option m_total_words
        (meta_files (fst (generate_one_book (filler_env 1498) sample_spec capped_args resumed_world))
           (meta_path capped_args sample_spec)) = Some 8
   \<and> gen_calls (fst (generate_one_book (filler_env 1498) sample_spec capped_args resumed_world)) = []"
proof -
  have n: "count_words (filler_chapter 1498) = 1500" by (simp add: count_words_filler)
  have ch: "startswith (lower (strip (filler_chapter 1498))) ''chapter ''"
    by (simp add: strip_filler filler_marker)
  have fresh: "state_files empty_world (state_path capped_args sample_spec) = None"
    by (simp add: empty_world_def)
  have tt: "count_words (title sample_spec) < 500"
    by (simp add: sample_spec_def sample_reply)
  have t2: "count_words (title sample_spec) = 2" by (simp add: sample_spec_def sample_reply)
  note R = fixed_stub_run(2) [of "filler_env 1498", OF filler_env_answers n ch
      capped_args_simps(1,2) fresh tt, unfolded t2]
  have w8: "count_words (manuscript_text (title sample_spec) (st_chapters short_doc)) = 8"
    unfolding count_words_manuscript t2
    by (simp add: short_doc_def count_words_def findall_words_def is_word_char_def)
  have g0: "gen_calls resumed_world = []" by (simp add: resumed_world_def empty_world_def)
  from R n show ?thesis
    unfolding resumed_run finalize_meta finalize_frame g0
    by (auto simp: w8)
qed

section \<open>A memory merge that fails\<close>

lemma rq_system_generate_request [simp]:
  "rq_system (generate_request ep m sys p t temp sd) = sys"
  by (simp add: generate_request_def)

lemma ollama_generate_raising:
  assumes r: "\<And>k. \<exists>exc. service e k (generate_request ep m sys p t temp sd) = Raises exc
                      \<and> is_Exception exc"
  shows "\<exists>w' exc. ollama_generate e ep m sys p t temp sd 3 w = (w', Inl exc) \<and> is_Exception exc"
proof -
  let ?rq = "generate_request ep m sys p t temp sd"
  have ar: "\<And>k. \<exists>exc. attempt_result e ?rq k = Inl exc \<and> is_Exception exc"
  proof -
    fix k
    from r [of k] obtain exc where "service e k ?rq = Raises exc" "is_Exception exc" by blast
    then show "\<exists>exc. attempt_result e ?rq k = Inl exc \<and> is_Exception exc"
      by (simp add: attempt_result_def)
  qed
  obtain e1 where e1: "attempt_result e ?rq (length (posts w)) = Inl e1" "is_Exception e1"
    using ar by blast
  obtain e2 where e2: "attempt_result e ?rq (length (posts w) + 1) = Inl e2" "is_Exception e2"
    using ar by blast
  obtain e3 where e3: "attempt_result e ?rq (length (posts w) + 2) = Inl e3" "is_Exception e3"
    using ar by blast
  have wrap: "\<And>s c. is_Exception (Exn RuntimeError s c)" by (simp add: is_Exception_def)
  show ?thesis
    using e1 e2 e3 by (simp add: ollama_generate_def Let_def attempt_loop_three wrap)
qed

lemma ollama_generate_responding:
  assumes ans: "\<And>k rq. rq_system rq \<noteq> merge_system \<Longrightarrow>
                  \<exists>text. service e k rq = Responds text \<and> strip text \<noteq> []"
    and sys: "sys \<noteq> merge_system"
  shows "\<exists>w' text. ollama_generate e ep m sys p t temp sd r w = (w', Inr text)"
proof -
  from ans [of "generate_request ep m sys p t temp sd" "length (posts w)"] sys
  obtain reply where "service e (length (posts w)) (generate_request ep m sys p t temp sd)
      = Responds reply" "strip reply \<noteq> []" by auto
  from ollama_generate_answered [OF this] show ?thesis by blast
qed

lemma chapter_system_not_merge:
  "fst (make_chapter_prompt spec n goal mem tgt) \<noteq> merge_system"
  by (simp add: make_chapter_prompt_def Let_def merge_system_def)

lemma summarize_system_not_merge: "summarize_system \<noteq> merge_system"
  by (simp add: summarize_system_def merge_system_def)

lemma produce_chapter_responding:
  assumes ans: "\<And>k rq. rq_system rq \<noteq> merge_system \<Longrightarrow>
                  \<exists>text. service e k rq = Responds text \<and> strip text \<noteq> []"
  shows "\<exists>w1 t. produce_chapter e spec a n mem w = (w1, Inr t)"
proof -
  let ?goal = "chapter_goal_for spec n"
  let ?p1 = "make_chapter_prompt spec n ?goal mem (target_chapter_words a)"
  let ?p2 = "make_chapter_prompt spec n (?goal @ '' Write fuller scenes and dialogue.'') mem
               (max (target_chapter_words a) 2000)"
  obtain w1 r1 where g1: "ollama_generate e (endpoint a) (model a) (fst ?p1) (snd ?p1)
       (timeout_sec a) 0.75 (seed a) 3 w = (w1, Inr r1)"
    using ollama_generate_responding [OF ans chapter_system_not_merge] by blast
  obtain w2 r2 where g2: "ollama_generate e (endpoint a) (model a) (fst ?p2) (snd ?p2)
       (timeout_sec a) 0.8 (seed a) 3 w1 = (w2, Inr r2)"
    using ollama_generate_responding [OF ans chapter_system_not_merge] by blast
  show ?thesis
    using g1 g2 by (simp add: produce_chapter_def Let_def split_beta)
qed

lemma record_chapter_fallback:
  assumes S: "summarize_chapter e (endpoint a) (model a) t (timeout_sec a) (seed a) w = (w1, rs)"
    and sx: "\<And>exc. rs = Inl exc \<Longrightarrow> is_Exception exc"
    and s: "s = (case rs of Inr summary \<Rightarrow> strip summary
                 | Inl exc \<Rightarrow> ''Chapter '' @ str_nat n @
                     '' summary unavailable due to error: '' @ exn_str exc)"
    and M: "merge_memory e (endpoint a) (model a) (story_memory v) s (timeout_sec a) (seed a) w1
              = (w2, Inl mexc)"
    and mx: "is_Exception mexc"
  shows "\<exists>w' v'. record_chapter e spec a n t v w = (w', Inr v')
      \<and> chapters v' = chapters v @ [t]
      \<and> chapter_summaries v' = chapter_summaries v @ [s]
      \<and> story_memory v' = fallback_memory (chapter_summaries v @ [s])
      \<and> gen_calls w' = gen_calls w2"
proof (cases rs)
  case (Inr summary)
  with s have s': "strip summary = s" by simp
  show ?thesis
    using M mx by (simp add: record_chapter_def S Inr s' now_iso_def Let_def)
next
  case (Inl exc)
  with s have s': "''Chapter '' @ str_nat n @ '' summary unavailable due to error: '' @ exn_str exc
      = s" by simp
  from sx Inl have x: "is_Exception exc" by simp
  show ?thesis
    using M mx x s' by (simp add: record_chapter_def S Inl now_iso_def Let_def)
qed

lemma merge_failing_record:
  assumes mf: "\<And>k rq. rq_system rq = merge_system \<Longrightarrow>
                  \<exists>exc. service e k rq = Raises exc \<and> is_Exception exc"
    and ans: "\<And>k rq. rq_system rq \<noteq> merge_system \<Longrightarrow>
                  \<exists>text. service e k rq = Responds text \<and> strip text \<noteq> []"
  shows "\<exists>w' v' s. record_chapter e spec a n t v w = (w', Inr v')
      \<and> chapters v' = chapters v @ [t]
      \<and> chapter_summaries v' = chapter_summaries v @ [s]
      \<and> story_memory v' = fallback_memory (chapter_summaries v')"
proof -
  obtain w1 summary where S: "summarize_chapter e (endpoint a) (model a) t (timeout_sec a) (seed a) w
      = (w1, Inr summary)"
    unfolding summarize_chapter_def
    using ollama_generate_responding [OF ans summarize_system_not_merge] by blast
  obtain w2 mexc where M: "merge_memory e (endpoint a) (model a) (story_memory v) (strip summary)
      (timeout_sec a) (seed a) w1 = (w2, Inl mexc)" and mx: "is_Exception mexc"
    unfolding merge_memory_def
    using ollama_generate_raising [of e, OF mf] by (metis rq_system_generate_request)
  from record_chapter_fallback [OF S _ _ M mx, where n = n and spec = spec]
  obtain w' v' where "record_chapter e spec a n t v w = (w', Inr v')"
      "chapters v' = chapters v @ [t]"
      "chapter_summaries v' = chapter_summaries v @ [strip summary]"
      "story_memory v' = fallback_memory (chapter_summaries v @ [strip summary])"
    by auto
  then show ?thesis by auto
qed

lemma merge_failing_step:
  assumes mf: "\<And>k rq. rq_system rq = merge_system \<Longrightarrow>
                  \<exists>exc. service e k rq = Raises exc \<and> is_Exception exc"
    and ans: "\<And>k rq. rq_system rq \<noteq> merge_system \<Longrightarrow>
                  \<exists>text. service e k rq = Responds text \<and> strip text \<noteq> []"
  shows "\<exists>w' v'. chapter_step e spec a v w = (w', Inr v')
      \<and> length (chapters v') = length (chapters v) + 1
      \<and> story_memory v' = fallback_memory (chapter_summaries v')"
proof -
  obtain w1 t where p: "produce_chapter e spec a (length (chapters v) + 1) (story_memory v) w
      = (w1, Inr t)"
    using produce_chapter_responding [OF ans] by blast
  from merge_failing_record [OF mf ans, of spec a "length (chapters v) + 1" t v w1]
  obtain w' v' where "record_chapter e spec a (length (chapters v) + 1) t v w1 = (w', Inr v')"
    "chapters v' = chapters v @ [t]" "story_memory v' = fallback_memory (chapter_summaries v')"
    by blast
  then show ?thesis
    unfolding chapter_step_def Let_def p by simp
qed

lemma merge_failing_loop:
  assumes mf: "\<And>k rq. rq_system rq = merge_system \<Longrightarrow>
                  \<exists>exc. service e k rq = Raises exc \<and> is_Exception exc"
    and ans: "\<And>k rq. rq_system rq \<noteq> merge_system \<Longrightarrow>
                  \<exists>text. service e k rq = Responds text \<and> strip text \<noteq> []"
  shows "\<exists>w1 v1. book_loop e spec a v w = (w1, Inr v1)
      \<and> ((w1 = w \<and> v1 = v) \<or> story_memory v1 = fallback_memory (chapter_summaries v1))"
  using assms
proof (induction e spec a v w rule: book_loop.induct)
  case (1 e spec a v w)
  note mf = "1.prems"(1) and ans = "1.prems"(2)
  show ?case
  proof (cases "loop_condition spec a (chapters v)")
    case False
    then show ?thesis by (simp add: book_loop_stop)
  next
    case True
    obtain w' v' where s: "chapter_step e spec a v w = (w', Inr v')"
      and m: "story_memory v' = fallback_memory (chapter_summaries v')"
      using merge_failing_step [OF mf ans, of spec a v w] by blast
    from "1.IH" [OF True s [symmetric] refl mf ans] obtain w1 v1 where
      l: "book_loop e spec a v' w' = (w1, Inr v1)"
      and i: "(w1 = w' \<and> v1 = v') \<or> story_memory v1 = fallback_memory (chapter_summaries v1)"
      by blast
    have b: "book_loop e spec a v w = (w1, Inr v1)"
      using book_loop_step [OF True s] l by simp
    from i m have "story_memory v1 = fallback_memory (chapter_summaries v1)" by auto
    with b show ?thesis by blast
  qed
qed

lemma uniform_loop:
  assumes step: "\<And>v w. \<exists>w' v'. chapter_step e spec a v w = (w', Inr v')
      \<and> chapters v' = chapters v @ [c]
      \<and> chapter_summaries v' = chapter_summaries v @ [s]
      \<and> story_memory v' = f (chapter_summaries v')"
  shows "(\<forall>j<k. loop_condition spec a (chapters v @ replicate j c)) \<Longrightarrow>
     \<not> loop_condition spec a (chapters v @ replicate k c) \<Longrightarrow>
     \<exists>w' v'. book_loop e spec a v w = (w', Inr v')
        \<and> chapters v' = chapters v @ replicate k c
        \<and> chapter_summaries v' = chapter_summaries v @ replicate k s
        \<and> (0 < k \<longrightarrow> story_memory v' = f (chapter_summaries v'))"
proof (induction k arbitrary: v w)
  case 0
  then show ?case by (simp add: book_loop_stop)
next
  case (Suc k)
  from Suc.prems(1) have go: "loop_condition spec a (chapters v)" by force
  obtain w1 v1 where s: "chapter_step e spec a v w = (w1, Inr v1)"
    and c: "chapters v1 = chapters v @ [c]"
    and cs: "chapter_summaries v1 = chapter_summaries v @ [s]"
    and m: "story_memory v1 = f (chapter_summaries v1)"
    using step [of v w] by blast
  have r: "\<And>j. chapters v1 @ replicate j c = chapters v @ replicate (Suc j) c"
    unfolding c by simp
  have 1: "\<forall>j<k. loop_condition spec a (chapters v1 @ replicate j c)"
    unfolding r using Suc.prems(1) by auto
  have 2: "\<not> loop_condition spec a (chapters v1 @ replicate k c)"
    unfolding r using Suc.prems(2) .
  from Suc.IH [OF 1 2, of w1] obtain w' v' where
    l: "book_loop e spec a v1 w1 = (w', Inr v')"
    and c': "chapters v' = chapters v1 @ replicate k c"
    and cs': "chapter_summaries v' = chapter_summaries v1 @ replicate k s"
    and m': "0 < k \<longrightarrow> story_memory v' = f (chapter_summaries v')"
    by blast
  have b: "book_loop e spec a v w = (w', Inr v')"
    using book_loop_step [OF go s] l by simp
  have "story_memory v' = f (chapter_summaries v')"
  proof (cases k)
    case 0
    with 2 have "book_loop e spec a v1 w1 = (w1, Inr v1)" by (simp add: book_loop_stop)
    with l have "v' = v1" by simp
    with m show ?thesis by simp
  next
    case (Suc k')
    with m' show ?thesis by simp
  qed
  moreover have "chapters v' = chapters v @ replicate (Suc k) c"
    unfolding c' c by simp
  moreover have "chapter_summaries v' = chapter_summaries v @ replicate (Suc k) s"
    unfolding cs' cs by simp
  ultimately show ?case using b by blast
qed

lemma merge_failing_env_service:
  "rq_system rq = merge_system \<Longrightarrow>
     service merge_failing_env k rq = Raises (Exn URLError ''connection refused'' None)"
  "rq_system rq \<noteq> merge_system \<Longrightarrow>
     service merge_failing_env k rq = Responds ''Chapter 1: Dawn. The night was long.''"
  by (simp_all add: merge_failing_env_def)

lemma merge_failing_env_fails:
  "rq_system rq = merge_system \<Longrightarrow>
     \<exists>exc. service merge_failing_env k rq = Raises exc \<and> is_Exception exc"
  by (simp add: merge_failing_env_def is_Exception_def)

lemma merge_failing_env_answers:
  "rq_system rq \<noteq> merge_system \<Longrightarrow>
     \<exists>text. service merge_failing_env k rq = Responds text \<and> strip text \<noteq> []"
  by (simp add: merge_failing_env_def sample_reply)

lemma merge_failing_env_produce:
  "\<exists>w1. produce_chapter merge_failing_env spec a n mem w
     = (w1, Inr ''Chapter 1: Dawn. The night was long.'')"
proof -
  let ?T = "''Chapter 1: Dawn. The night was long.''"
  have ne: "strip ?T \<noteq> []" by (simp add: sample_reply)
  have g: "\<And>sys p temp w. sys \<noteq> merge_system \<Longrightarrow>
      ollama_generate merge_failing_env (endpoint a) (model a) sys p (timeout_sec a) temp (seed a) 3 w
      = (w\<lparr>gen_calls := gen_calls w @ [generate_request (endpoint a) (model a) sys p (timeout_sec a) temp (seed a)],
           posts := posts w @ [generate_request (endpoint a) (model a) sys p (timeout_sec a) temp (seed a)]\<rparr>,
         Inr ?T)"
    using ollama_generate_answered [OF merge_failing_env_service(2) ne, unfolded sample_reply(1)]
    by simp
  show ?thesis
    by (simp add: produce_chapter_def Let_def split_beta g chapter_system_not_merge sample_reply)
qed

lemma merge_failing_env_step:
  "\<exists>w' v'. chapter_step merge_failing_env spec a v w = (w', Inr v')
      \<and> chapters v' = chapters v @ [''Chapter 1: Dawn. The night was long.'']
      \<and> chapter_summaries v' = chapter_summaries v @ [''Chapter 1: Dawn. The night was long.'']
      \<and> story_memory v' = fallback_memory (chapter_summaries v')"
proof -
  let ?T = "''Chapter 1: Dawn. The night was long.''"
  let ?n = "length (chapters v) + 1"
  have ne: "strip ?T \<noteq> []" by (simp add: sample_reply)
  obtain w1 where p: "produce_chapter merge_failing_env spec a ?n (story_memory v) w = (w1, Inr ?T)"
    using merge_failing_env_produce by blast
  obtain w2 where S: "summarize_chapter merge_failing_env (endpoint a) (model a) ?T (timeout_sec a)
      (seed a) w1 = (w2, Inr ?T)"
    unfolding summarize_chapter_def
    using ollama_generate_answered [OF merge_failing_env_service(2) ne, unfolded sample_reply(1)]
      summarize_system_not_merge by simp
  obtain w3 mexc where M: "merge_memory merge_failing_env (endpoint a) (model a) (story_memory v) ?T
      (timeout_sec a) (seed a) w2 = (w3, Inl mexc)" and mx: "is_Exception mexc"
    unfolding merge_memory_def
    using ollama_generate_raising [of merge_failing_env, OF merge_failing_env_fails]
    by (metis rq_system_generate_request)
  from record_chapter_fallback [OF S _ _ M mx, where n = ?n and spec = spec]
  obtain w' v' where "record_chapter merge_failing_env spec a ?n ?T v w1 = (w', Inr v')"
      "chapters v' = chapters v @ [?T]"
      "chapter_summaries v' = chapter_summaries v @ [?T]"
      "story_memory v' = fallback_memory (chapter_summaries v @ [?T])"
    by (auto simp: sample_reply)
  then show ?thesis
    unfolding chapter_step_def Let_def p by simp
qed

section \<open>The memory after a failed merge\<close>

text \<open>
  C3, amended. When the merge of the story memory raises an \<^verbatim>\<open>Exception\<close>, the
  iteration goes on without a further call of the engine, and the story memory becomes
  the line \<open>Recent continuity notes:\<close> followed by the most recent chapter summaries, at
  most five of them, one per line. With a service that refuses every merge request and
  answers every other request with a text that is not blank, every iteration completes
  with this memory, the loop ends normally with it, and \<^verbatim>\<open>generate_one_book\<close> goes on to
  write the metadata document.
\<close>

theorem merge_failure_falls_back:
  "(let S = summarize_chapter e (endpoint a) (model a) t (timeout_sec a) (seed a) w;
        s = (case snd S of
               Inr summary \<Rightarrow> strip summary
             | Inl exc \<Rightarrow> ''Chapter '' @ str_nat n @
                 '' summary unavailable due to error: '' @ exn_str exc);
        M = merge_memory e (endpoint a) (model a) (story_memory v) s (timeout_sec a) (seed a) (fst S);
        summaries = chapter_summaries v @ [s]
    in (\<forall>exc. snd S = Inl exc \<longrightarrow> is_Exception exc)
         \<and> (\<exists>exc. snd M = Inl exc \<and> is_Exception exc) \<longrightarrow>
       (\<exists>w' v'. record_chapter e spec a n t v w = (w', Inr v')
          \<and> chapters v' = chapters v @ [t]
          \<and> chapter_summaries v' = summaries
          \<and> story_memory v' = ''Recent continuity notes:\<newline>'' @
               join ''\<newline>'' (drop (length summaries - 5) summaries)
          \<and> gen_calls w' = gen_calls (fst M)))
   \<and> ((\<forall>k rq. rq_system rq = merge_system \<longrightarrow>
           (\<exists>exc. service e k rq = Raises exc \<and> is_Exception exc))
        \<and> (\<forall>k rq. rq_system rq \<noteq> merge_system \<longrightarrow>
           (\<exists>text. service e k rq = Responds text \<and> strip text \<noteq> [])) \<longrightarrow>
      (\<exists>w' v'. chapter_step e spec a v w = (w', Inr v')
         \<and> length (chapters v') = length (chapters v) + 1
         \<and> story_memory v' = ''Recent continuity notes:\<newline>'' @
              join ''\<newline>'' (drop (length (chapter_summaries v') - 5) (chapter_summaries v')))
      \<and> (\<exists>w1 v1. book_loop e spec a v w = (w1, Inr v1)
         \<and> (chapters v1 \<noteq> chapters v \<longrightarrow>
              story_memory v1 = ''Recent continuity notes:\<newline>'' @
                join ''\<newline>'' (drop (length (chapter_summaries v1) - 5) (chapter_summaries v1))))
      \<and> (\<exists>w1 v1. book_loop e spec a (snd (load_vars e spec a w)) (fst (load_vars e spec a w))
                     = (w1, Inr v1)
         \<and> generate_one_book e spec a w = finalize e spec a v1 w1
         \<and> meta_files (fst (generate_one_book e spec a w)) (meta_path a spec) \<noteq> None))"
proof (intro conjI)
  let ?S = "summarize_chapter e (endpoint a) (model a) t (timeout_sec a) (seed a) w"
  let ?s = "(case snd ?S of
               Inr summary \<Rightarrow> strip summary
             | Inl exc \<Rightarrow> ''Chapter '' @ str_nat n @
                 '' summary unavailable due to error: '' @ exn_str exc)"
  let ?M = "merge_memory e (endpoint a) (model a) (story_memory v) ?s (timeout_sec a) (seed a) (fst ?S)"
  {
    assume sx: "\<forall>exc. snd ?S = Inl exc \<longrightarrow> is_Exception exc"
      and mx: "\<exists>exc. snd ?M = Inl exc \<and> is_Exception exc"
    from mx obtain mexc where m: "snd ?M = Inl mexc" and mi: "is_Exception mexc" by blast
    have S: "?S = (fst ?S, snd ?S)" by simp
    have M: "?M = (fst ?M, Inl mexc)" using m by (metis prod.collapse)
    from sx have sx': "\<And>exc. snd ?S = Inl exc \<Longrightarrow> is_Exception exc" by blast
    from record_chapter_fallback [OF S sx' refl M mi, where spec = spec]
    have "\<exists>w' v'. record_chapter e spec a n t v w = (w', Inr v')
          \<and> chapters v' = chapters v @ [t]
          \<and> chapter_summaries v' = chapter_summaries v @ [?s]
          \<and> story_memory v' = ''Recent continuity notes:\<newline>'' @
               join ''\<newline>'' (drop (length (chapter_summaries v @ [?s]) - 5) (chapter_summaries v @ [?s]))
          \<and> gen_calls w' = gen_calls (fst ?M)"
      unfolding fallback_memory_def by blast
  }
  then show "let S = ?S;
        s = (case snd S of
               Inr summary \<Rightarrow> strip summary
             | Inl exc \<Rightarrow> ''Chapter '' @ str_nat n @
                 '' summary unavailable due to error: '' @ exn_str exc);
        M = merge_memory e (endpoint a) (model a) (story_memory v) s (timeout_sec a) (seed a) (fst S);
        summaries = chapter_summaries v @ [s]
    in (\<forall>exc. snd S = Inl exc \<longrightarrow> is_Exception exc)
         \<and> (\<exists>exc. snd M = Inl exc \<and> is_Exception exc) \<longrightarrow>
       (\<exists>w' v'. record_chapter e spec a n t v w = (w', Inr v')
          \<and> chapters v' = chapters v @ [t]
          \<and> chapter_summaries v' = summaries
          \<and> story_memory v' = ''Recent continuity notes:\<newline>'' @
               join ''\<newline>'' (drop (length summaries - 5) summaries)
          \<and> gen_calls w' = gen_calls (fst M))"
    unfolding Let_def by blast
next
  show "(\<forall>k rq. rq_system rq = merge_system \<longrightarrow>
           (\<exists>exc. service e k rq = Raises exc \<and> is_Exception exc))
        \<and> (\<forall>k rq. rq_system rq \<noteq> merge_system \<longrightarrow>
           (\<exists>text. service e k rq = Responds text \<and> strip text \<noteq> [])) \<longrightarrow>
      (\<exists>w' v'. chapter_step e spec a v w = (w', Inr v')
         \<and> length (chapters v') = length (chapters v) + 1
         \<and> story_memory v' = ''Recent continuity notes:\<newline>'' @
              join ''\<newline>'' (drop (length (chapter_summaries v') - 5) (chapter_summaries v')))
      \<and> (\<exists>w1 v1. book_loop e spec a v w = (w1, Inr v1)
         \<and> (chapters v1 \<noteq> chapters v \<longrightarrow>
              story_memory v1 = ''Recent continuity notes:\<newline>'' @
                join ''\<newline>'' (drop (length (chapter_summaries v1) - 5) (chapter_summaries v1))))
      \<and> (\<exists>w1 v1. book_loop e spec a (snd (load_vars e spec a w)) (fst (load_vars e spec a w))
                     = (w1, Inr v1)
         \<and> generate_one_book e spec a w = finalize e spec a v1 w1
         \<and> meta_files (fst (generate_one_book e spec a w)) (meta_path a spec) \<noteq> None)"
  proof (intro impI conjI)
    assume h: "(\<forall>k rq. rq_system rq = merge_system \<longrightarrow>
           (\<exists>exc. service e k rq = Raises exc \<and> is_Exception exc))
        \<and> (\<forall>k rq. rq_system rq \<noteq> merge_system \<longrightarrow>
           (\<exists>text. service e k rq = Responds text \<and> strip text \<noteq> []))"
    then have mf: "\<And>k rq. rq_system rq = merge_system \<Longrightarrow>
                  \<exists>exc. service e k rq = Raises exc \<and> is_Exception exc"
      and ans: "\<And>k rq. rq_system rq \<noteq> merge_system \<Longrightarrow>
                  \<exists>text. service e k rq = Responds text \<and> strip text \<noteq> []"
      by blast+
    from merge_failing_step [OF mf ans, of spec a v w]
    show "\<exists>w' v'. chapter_step e spec a v w = (w', Inr v')
         \<and> length (chapters v') = length (chapters v) + 1
         \<and> story_memory v' = ''Recent continuity notes:\<newline>'' @
              join ''\<newline>'' (drop (length (chapter_summaries v') - 5) (chapter_summaries v'))"
      unfolding fallback_memory_def .
    from merge_failing_loop [OF mf ans, of spec a v w]
    show "\<exists>w1 v1. book_loop e spec a v w = (w1, Inr v1)
         \<and> (chapters v1 \<noteq> chapters v \<longrightarrow>
              story_memory v1 = ''Recent continuity notes:\<newline>'' @
                join ''\<newline>'' (drop (length (chapter_summaries v1) - 5) (chapter_summaries v1)))"
      unfolding fallback_memory_def by auto
    from merge_failing_loop [OF mf ans, of spec a "snd (load_vars e spec a w)"
        "fst (load_vars e spec a w)"]
    obtain w1 v1 where l: "book_loop e spec a (snd (load_vars e spec a w)) (fst (load_vars e spec a w))
        = (w1, Inr v1)" by blast
    note g = finalize_after_loop [OF l]
    have "meta_files (fst (generate_one_book e spec a w)) (meta_path a spec) \<noteq> None"
      unfolding g finalize_meta by simp
    with l g show "\<exists>w1 v1. book_loop e spec a (snd (load_vars e spec a w)) (fst (load_vars e spec a w))
                     = (w1, Inr v1)
         \<and> generate_one_book e spec a w = finalize e spec a v1 w1
         \<and> meta_files (fst (generate_one_book e spec a w)) (meta_path a spec) \<noteq> None"
      by blast
  qed
qed

theorem merge_failure_falls_back_witness:
  "(\<exists>w' v'. record_chapter merge_failing_env sample_spec sample_args 1
               ''Chapter 1: Dawn. The night was long.''
               (snd (load_vars merge_failing_env sample_spec sample_args empty_world))
               empty_world = (w', Inr v')
        \<and> chapter_summaries v' = [''Chapter 1: Dawn. The night was long.'']
        \<and> story_memory v'
            = ''Recent continuity notes:\<newline>Chapter 1: Dawn. The night was long.'')
   \<and> (\<exists>w' v'. chapter_step merge_failing_env sample_spec sample_args
               (snd (load_vars merge_failing_env sample_spec sample_args empty_world))
               empty_world = (w', Inr v')
        \<and> length (chapters v') = 1)
   \<and> (\<exists>w1 v1. book_loop merge_failing_env sample_spec sample_args
               (snd (load_vars merge_failing_env sample_spec sample_args empty_world))
               empty_world = (w1, Inr v1))
   \<and> meta_files (fst (generate_one_book merge_failing_env sample_spec sample_args empty_world))
        (meta_path sample_args sample_spec) \<noteq> None"
proof -
  let ?T = "''Chapter 1: Dawn. The night was long.''"
  let ?e = merge_failing_env
  let ?v = "snd (load_vars ?e sample_spec sample_args empty_world)"
  have ne: "strip ?T \<noteq> []" by (simp add: sample_reply)
  have fresh: "state_files empty_world (state_path sample_args sample_spec) = None"
    by (simp add: empty_world_def)
  note v = load_vars_fresh(1,2,3) [OF fresh, where e = ?e]
  obtain wS where S: "summarize_chapter ?e (endpoint sample_args) (model sample_args) ?T
      (timeout_sec sample_args) (seed sample_args) empty_world = (wS, Inr ?T)"
    unfolding summarize_chapter_def
    using ollama_generate_answered [OF merge_failing_env_service(2) ne, unfolded sample_reply(1)]
      summarize_system_not_merge by simp
  obtain wM mexc where M: "merge_memory ?e (endpoint sample_args) (model sample_args)
      (story_memory ?v) ?T (timeout_sec sample_args) (seed sample_args) wS = (wM, Inl mexc)"
    and mx: "is_Exception mexc"
    unfolding merge_memory_def
    using ollama_generate_raising [of ?e, OF merge_failing_env_fails]
    by (metis rq_system_generate_request)
  have hB: "(\<forall>k rq. rq_system rq = merge_system \<longrightarrow>
           (\<exists>exc. service ?e k rq = Raises exc \<and> is_Exception exc))
        \<and> (\<forall>k rq. rq_system rq \<noteq> merge_system \<longrightarrow>
           (\<exists>text. service ?e k rq = Responds text \<and> strip text \<noteq> []))"
    using merge_failing_env_fails merge_failing_env_answers by blast
  note T = merge_failure_falls_back [where e = ?e and a = sample_args and spec = sample_spec
      and t = ?T and n = 1 and v = ?v and w = empty_world,
      unfolded Let_def S fst_conv snd_conv sum.case sample_reply(1) M]
  from T mx have A: "\<exists>w' v'. record_chapter ?e sample_spec sample_args 1 ?T ?v empty_world = (w', Inr v')
        \<and> chapter_summaries v' = chapter_summaries ?v @ [?T]
        \<and> story_memory v' = ''Recent continuity notes:\<newline>'' @
               join ''\<newline>'' (drop (length (chapter_summaries ?v @ [?T]) - 5)
                 (chapter_summaries ?v @ [?T]))"
    by blast
  from T hB have B: "(\<exists>w' v'. chapter_step ?e sample_spec sample_args ?v empty_world = (w', Inr v')
         \<and> length (chapters v') = length (chapters ?v) + 1)
      \<and> (\<exists>w1 v1. book_loop ?e sample_spec sample_args ?v empty_world = (w1, Inr v1))
      \<and> meta_files (fst (generate_one_book ?e sample_spec sample_args empty_world))
           (meta_path sample_args sample_spec) \<noteq> None"
    by blast
  from A B show ?thesis
    unfolding v by simp
qed

text \<open>
  C3, as it is worded, fails: the memory that replaces a failed merge is not the
  concatenation of the recent summaries. After two chapters with a service that refuses
  every merge request, the stored story memory is a header line followed by the two
  summaries, one per line.
\<close>

theorem fallback_memory_is_not_the_concatenation:
  "map_option st_chapter_summaries
     (state_files (fst (generate_one_book merge_failing_env sample_spec
          (sample_args\<lparr>max_chapters := 2\<rparr>) empty_world))
        (state_path (sample_args\<lparr>max_chapters := 2\<rparr>) sample_spec))
     = Some [''Chapter 1: Dawn. The night was long.'', ''Chapter 1: Dawn. The night was long.'']
   \<and> map_option st_story_memory
     (state_files (fst (generate_one_book merge_failing_env sample_spec
          (sample_args\<lparr>max_chapters := 2\<rparr>) empty_world))
        (state_path (sample_args\<lparr>max_chapters := 2\<rparr>) sample_spec))
     = Some (''Recent continuity notes:\<newline>'' @
             ''Chapter 1: Dawn. The night was long.\<newline>'' @
             ''Chapter 1: Dawn. The night was long.'')
   \<and> map_option st_story_memory
     (state_files (fst (generate_one_book merge_failing_env sample_spec
          (sample_args\<lparr>max_chapters := 2\<rparr>) empty_world))
        (state_path (sample_args\<lparr>max_chapters := 2\<rparr>) sample_spec))
     \<noteq> map_option (concat \<circ> st_chapter_summaries)
     (state_files (fst (generate_one_book merge_failing_env sample_spec
          (sample_args\<lparr>max_chapters := 2\<rparr>) empty_world))
        (state_path (sample_args\<lparr>max_chapters := 2\<rparr>) sample_spec))"
proof -
  let ?T = "''Chapter 1: Dawn. The night was long.''"
  let ?e = merge_failing_env
  let ?a = "sample_args\<lparr>max_chapters := 2\<rparr>"
  let ?v = "snd (load_vars ?e sample_spec ?a empty_world)"
  have fresh: "state_files empty_world (state_path ?a sample_spec) = None"
    by (simp add: empty_world_def)
  note v = load_vars_fresh(1,2) [OF fresh, where e = ?e]
  have t: "title sample_spec = ''Null Meridian''" by (simp add: sample_spec_def)
  have a: "min_words ?a = 40000" "max_chapters ?a = 2" by (simp_all add: sample_args_def)
  have go: "\<forall>j<2. loop_condition sample_spec ?a (chapters ?v @ replicate j ?T)"
    unfolding v loop_condition_def count_words_manuscript a t
    by (auto simp: sample_reply less_Suc_eq numeral_2_eq_2)
  have stop: "\<not> loop_condition sample_spec ?a (chapters ?v @ replicate 2 ?T)"
    unfolding v loop_condition_def a by simp
  from uniform_loop [of ?e sample_spec ?a ?T ?T fallback_memory, OF merge_failing_env_step go stop,
      of "fst (load_vars ?e sample_spec ?a empty_world)", unfolded v]
  obtain w1 v1 where l: "book_loop ?e sample_spec ?a ?v (fst (load_vars ?e sample_spec ?a empty_world))
        = (w1, Inr v1)"
    and c: "chapters v1 = [?T, ?T]"
    and cs: "chapter_summaries v1 = [?T, ?T]"
    and m: "story_memory v1 = fallback_memory (chapter_summaries v1)"
    by (auto simp: numeral_2_eq_2)
  have "chapters v1 \<noteq> chapters ?v" unfolding c v by simp
  with book_loop_stored [OF l]
  have st: "state_files w1 (state_path ?a sample_spec) = Some (state v1)"
    "st_chapter_summaries (state v1) = chapter_summaries v1"
    "st_story_memory (state v1) = story_memory v1"
    by auto
  note g = finalize_after_loop [OF l]
  have fm: "fallback_memory [?T, ?T] = ''Recent continuity notes:\<newline>'' @
             ''Chapter 1: Dawn. The night was long.\<newline>'' @
             ''Chapter 1: Dawn. The night was long.''"
    by (simp add: fallback_memory_def)
  show ?thesis
    unfolding g finalize_frame st option.map comp_def m cs fm by simp
qed

section \<open>The clock readings of a run\<close>

lemma ollama_generate_ticks:
  "ticks (fst (ollama_generate e ep m sys p t temp sd r w)) = ticks w"
  using ollama_generate_frame [of e ep m sys p t temp sd r w] by auto

lemma produce_chapter_ticks: "ticks (fst (produce_chapter e spec a n mem w)) = ticks w"
proof -
  have g: "\<And>sys p temp w w1 r. ollama_generate e (endpoint a) (model a) sys p (timeout_sec a) temp (seed a) 3 w = (w1, r)
      \<Longrightarrow> ticks w1 = ticks w"
    by (metis ollama_generate_ticks fst_conv)
  show ?thesis
    by (auto simp: produce_chapter_def Let_def split: prod.splits sum.splits dest!: g)
qed

lemma record_chapter_ticks:
  assumes "record_chapter e spec a n t v w = (w', Inr v')"
  shows "ticks w' = Suc (ticks w)"
proof -
  have g: "\<And>sys p temp w w1 r. ollama_generate e (endpoint a) (model a) sys p (timeout_sec a) temp (seed a) 3 w = (w1, r)
      \<Longrightarrow> ticks w1 = ticks w"
    by (metis ollama_generate_ticks fst_conv)
  show ?thesis
    using assms
    by (auto simp: record_chapter_def summarize_chapter_def merge_memory_def now_iso_def Let_def
             split: prod.splits sum.splits if_splits dest!: g)
qed

lemma chapter_step_ticks:
  assumes "chapter_step e spec a v w = (w', Inr v')"
  shows "ticks w' = Suc (ticks w)"
proof -
  obtain t w1 where p: "produce_chapter e spec a (length (chapters v) + 1) (story_memory v) w = (w1, Inr t)"
    and r: "record_chapter e spec a (length (chapters v) + 1) t v w1 = (w', Inr v')"
    using chapter_step_Inr [OF assms] by blast
  from produce_chapter_ticks [of e spec a "length (chapters v) + 1" "story_memory v" w] p
  have "ticks w1 = ticks w" by simp
  with record_chapter_ticks [OF r] show ?thesis by simp
qed

lemma finalize_ticks: "ticks (fst (finalize e spec a v w)) = Suc (ticks w)"
  by (simp add: finalize_def now_iso_def Let_def)

section \<open>A second run over a finished book\<close>

lemma load_vars_frame: "\<exists>n. fst (load_vars e spec a w) = w\<lparr>ticks := n\<rparr>"
proof (cases "state_files w (state_path a spec)")
  case None
  from load_vars_fresh(4) [OF this] show ?thesis by blast
next
  case (Some doc)
  from load_vars_stored(5) [OF this, of e] have "fst (load_vars e spec a w) = w\<lparr>ticks := ticks w\<rparr>"
    by simp
  then show ?thesis by blast
qed

lemma finalize_ticks_frame:
  "gen_calls (fst (finalize e spec a v (w\<lparr>ticks := n\<rparr>))) = gen_calls w"
  "posts (fst (finalize e spec a v (w\<lparr>ticks := n\<rparr>))) = posts w"
  "sleeps (fst (finalize e spec a v (w\<lparr>ticks := n\<rparr>))) = sleeps w"
  "state_files (fst (finalize e spec a v (w\<lparr>ticks := n\<rparr>))) = state_files w"
  "book_files (fst (finalize e spec a v (w\<lparr>ticks := n\<rparr>))) = book_files w"
  by (simp_all add: finalize_def now_iso_def Let_def)

lemma finalize_same_lists:
  assumes "chapters v' = chapters v" and "chapter_summaries v' = chapter_summaries v"
  shows "snd (finalize e spec a v' w') = snd (finalize e spec a v w)"
    and "meta_files (fst (finalize e spec a v' w')) (meta_path a spec) =
           map_option (\<lambda>m. m\<lparr>m_generated_at := clock e (ticks w')\<rparr>)
             (meta_files (fst (finalize e spec a v w)) (meta_path a spec))"
  using assms by (simp_all add: finalize_result finalize_meta)

lemma loop_result_is_stored:
  assumes l: "book_loop e spec a (snd (load_vars e spec a w)) (fst (load_vars e spec a w))
                = (w1, Inr v1)"
  shows "case state_files w1 (state_path a spec) of
           Some doc \<Rightarrow> st_chapters doc = chapters v1
                       \<and> st_chapter_summaries doc = chapter_summaries v1
         | None \<Rightarrow> chapters v1 = [] \<and> chapter_summaries v1 = []"
proof -
  from book_loop_stored [OF l] show ?thesis
  proof
    assume same: "w1 = fst (load_vars e spec a w) \<and> v1 = snd (load_vars e spec a w)"
    obtain n where f: "fst (load_vars e spec a w) = w\<lparr>ticks := n\<rparr>"
      using load_vars_frame by blast
    show ?thesis
    proof (cases "state_files w (state_path a spec)")
      case None
      with same f load_vars_fresh(1,2) [OF None, of e] show ?thesis by simp
    next
      case (Some doc)
      with same f load_vars_stored(1,2) [OF Some, of e] show ?thesis by simp
    qed
  next
    assume "state_files w1 (state_path a spec) = Some (state v1)
      \<and> st_chapters (state v1) = chapters v1
      \<and> st_chapter_summaries (state v1) = chapter_summaries v1
      \<and> st_story_memory (state v1) = story_memory v1
      \<and> book_files w1 (book_path a spec) = Some (manuscript_text (title spec) (chapters v1))"
    then show ?thesis by simp
  qed
qed

lemma reload_after_run:
  assumes c: "case state_files w1 (state_path a spec) of
           Some doc \<Rightarrow> st_chapters doc = chapters v1
                       \<and> st_chapter_summaries doc = chapter_summaries v1
         | None \<Rightarrow> chapters v1 = [] \<and> chapter_summaries v1 = []"
    and s: "state_files wr = state_files w1"
  shows "chapters (snd (load_vars e spec a wr)) = chapters v1"
    and "chapter_summaries (snd (load_vars e spec a wr)) = chapter_summaries v1"
proof -
  show "chapters (snd (load_vars e spec a wr)) = chapters v1"
  proof (cases "state_files w1 (state_path a spec)")
    case None
    with c s load_vars_fresh(1) [of wr a spec e] show ?thesis by simp
  next
    case (Some doc)
    with c s load_vars_stored(1) [of wr a spec doc e] show ?thesis by simp
  qed
  show "chapter_summaries (snd (load_vars e spec a wr)) = chapter_summaries v1"
  proof (cases "state_files w1 (state_path a spec)")
    case None
    with c s load_vars_fresh(2) [of wr a spec e] show ?thesis by simp
  next
    case (Some doc)
    with c s load_vars_stored(2) [of wr a spec doc e] show ?thesis by simp
  qed
qed

lemma second_run:
  assumes l: "book_loop e spec a (snd (load_vars e spec a w)) (fst (load_vars e spec a w))
                = (w1, Inr v1)"
  shows "gen_calls (fst (generate_one_book e spec a (fst (generate_one_book e spec a w))))
           = gen_calls (fst (generate_one_book e spec a w))"
    and "posts (fst (generate_one_book e spec a (fst (generate_one_book e spec a w))))
           = posts (fst (generate_one_book e spec a w))"
    and "sleeps (fst (generate_one_book e spec a (fst (generate_one_book e spec a w))))
           = sleeps (fst (generate_one_book e spec a w))"
    and "state_files (fst (generate_one_book e spec a (fst (generate_one_book e spec a w))))
           = state_files (fst (generate_one_book e spec a w))"
    and "book_files (fst (generate_one_book e spec a (fst (generate_one_book e spec a w))))
           = book_files (fst (generate_one_book e spec a w))"
    and "snd (generate_one_book e spec a (fst (generate_one_book e spec a w)))
           = snd (generate_one_book e spec a w)"
    and "meta_files (fst (generate_one_book e spec a (fst (generate_one_book e spec a w))))
             (meta_path a spec)
           = map_option (\<lambda>m. m\<lparr>m_generated_at :=
                 clock e (ticks (fst (load_vars e spec a (fst (generate_one_book e spec a w)))))\<rparr>)
               (meta_files (fst (generate_one_book e spec a w)) (meta_path a spec))"
    and "map_option m_generated_at
           (meta_files (fst (generate_one_book e spec a w)) (meta_path a spec))
           = Some (clock e (ticks w1))"
proof -
  let ?wf = "fst (generate_one_book e spec a w)"
  let ?v2 = "snd (load_vars e spec a ?wf)"
  let ?w2 = "fst (load_vars e spec a ?wf)"
  note g = finalize_after_loop [OF l]
  have sf: "state_files ?wf = state_files w1" unfolding g by (rule finalize_frame)
  note rl = reload_after_run [OF loop_result_is_stored [OF l] sf, of e]
  have stop: "\<not> loop_condition spec a (chapters ?v2)"
    unfolding rl using book_loop_exit [OF l] .
  have l2: "book_loop e spec a ?v2 ?w2 = (?w2, Inr ?v2)"
    using stop by (rule book_loop_stop)
  note g2 = finalize_after_loop [OF l2]
  obtain n where f: "?w2 = ?wf\<lparr>ticks := n\<rparr>" using load_vars_frame by blast
  show "gen_calls (fst (generate_one_book e spec a ?wf)) = gen_calls ?wf"
    unfolding g2 unfolding f by (rule finalize_ticks_frame)
  show "posts (fst (generate_one_book e spec a ?wf)) = posts ?wf"
    unfolding g2 unfolding f by (rule finalize_ticks_frame)
  show "sleeps (fst (generate_one_book e spec a ?wf)) = sleeps ?wf"
    unfolding g2 unfolding f by (rule finalize_ticks_frame)
  show "state_files (fst (generate_one_book e spec a ?wf)) = state_files ?wf"
    unfolding g2 unfolding f by (rule finalize_ticks_frame)
  show "book_files (fst (generate_one_book e spec a ?wf)) = book_files ?wf"
    unfolding g2 unfolding f by (rule finalize_ticks_frame)
  have "snd (finalize e spec a ?v2 ?w2) = snd (finalize e spec a v1 w1)"
    using rl by (rule finalize_same_lists)
  then show "snd (generate_one_book e spec a ?wf) = snd (generate_one_book e spec a w)"
    unfolding g2 unfolding g .
  have "meta_files (fst (finalize e spec a ?v2 ?w2)) (meta_path a spec) =
           map_option (\<lambda>m. m\<lparr>m_generated_at := clock e (ticks ?w2)\<rparr>)
             (meta_files (fst (finalize e spec a v1 w1)) (meta_path a spec))"
    using rl by (rule finalize_same_lists)
  then show "meta_files (fst (generate_one_book e spec a ?wf)) (meta_path a spec)
           = map_option (\<lambda>m. m\<lparr>m_generated_at := clock e (ticks ?w2)\<rparr>)
               (meta_files ?wf (meta_path a spec))"
    unfolding g2 unfolding g .
  show "map_option m_generated_at (meta_files ?wf (meta_path a spec)) = Some (clock e (ticks w1))"
    unfolding g finalize_meta by simp
qed

lemma book_loop_ticks:
  "book_loop e spec a v w = (w', Inr v') \<Longrightarrow>
   ticks w' + length (chapters v) = ticks w + length (chapters v')"
proof (induction e spec a v w arbitrary: w' v' rule: book_loop.induct)
  case (1 e spec a v w)
  show ?case
  proof (cases "loop_condition spec a (chapters v)")
    case False
    with "1.prems" show ?thesis by (simp add: book_loop_stop)
  next
    case True
    obtain w1 r where s: "chapter_step e spec a v w = (w1, r)" by fastforce
    show ?thesis
    proof (cases r)
      case (Inl exc)
      with True s "1.prems" show ?thesis by (simp add: book_loop_raise)
    next
      case (Inr v1)
      with True s "1.prems" have l: "book_loop e spec a v1 w1 = (w', Inr v')"
        by (simp add: book_loop_step)
      from chapter_step_appends [OF s [unfolded Inr]]
      have n: "length (chapters v1) = Suc (length (chapters v))" by auto
      from chapter_step_ticks [OF s [unfolded Inr]] have t: "ticks w1 = Suc (ticks w)" .
      from "1.IH" [OF True s [symmetric] Inr l] n t show ?thesis by simp
    qed
  qed
qed

lemma stored_run:
  assumes s: "state_files w (state_path a spec) = Some doc"
    and b: "\<not> loop_condition spec a (st_chapters doc)"
  shows "generate_one_book e spec a w = finalize e spec a (snd (load_vars e spec a w)) w"
proof -
  note lv = load_vars_stored [OF s, of e]
  have "book_loop e spec a (snd (load_vars e spec a w)) (fst (load_vars e spec a w))
      = (fst (load_vars e spec a w), Inr (snd (load_vars e spec a w)))"
    using b by (intro book_loop_stop) (simp add: lv)
  from finalize_after_loop [OF this] show ?thesis unfolding lv(5) .
qed

text \<open>
  C2, amended. A run of \<^verbatim>\<open>generate_one_book\<close> on a book whose stored state already
  meets one of the two bounds generates nothing: it calls the engine not at all and leaves
  the state document and the manuscript as they are. It writes the metadata document
  again, from the stored chapters and summaries and with a new reading of the clock in
  \<open>generated_at\<close>. So a second run directly after a run that reached the end of its
  loop makes no generation call, leaves state and manuscript unchanged, ends as the first
  run ended, and writes a metadata document that agrees with that of the first run in
  every field other than \<open>generated_at\<close>.
\<close>

theorem second_run_regenerates_nothing:
  "(state_files w (state_path a spec) = Some doc
      \<and> (min_words a \<le> int (count_words (manuscript_text (title spec) (st_chapters doc)))
           \<or> max_chapters a \<le> int (length (st_chapters doc))) \<longrightarrow>
     (let r = generate_one_book e spec a w
      in gen_calls (fst r) = gen_calls w \<and> posts (fst r) = posts w \<and> sleeps (fst r) = sleeps w
         \<and> state_files (fst r) = state_files w \<and> book_files (fst r) = book_files w
         \<and> meta_files (fst r) (meta_path a spec) =
             Some \<lparr>m_title = title spec, m_genre = genre spec, m_model = model a,
                   m_endpoint = endpoint a,
                   m_total_words = count_words (manuscript_text (title spec) (st_chapters doc)),
                   m_chapters = length (st_chapters doc), m_target_min_words = min_words a,
                   m_generated_at = clock e (ticks w), m_state_file = state_path a spec,
                   m_chapter_summaries = st_chapter_summaries doc\<rparr>))
   \<and> (book_loop e spec a (snd (load_vars e spec a w)) (fst (load_vars e spec a w))
         = (w1, Inr v1) \<longrightarrow>
     (let r1 = generate_one_book e spec a w;
          r2 = generate_one_book e spec a (fst r1)
      in gen_calls (fst r2) = gen_calls (fst r1) \<and> posts (fst r2) = posts (fst r1)
         \<and> sleeps (fst r2) = sleeps (fst r1)
         \<and> state_files (fst r2) = state_files (fst r1)
         \<and> book_files (fst r2) = book_files (fst r1)
         \<and> snd r2 = snd r1
         \<and> meta_files (fst r2) (meta_path a spec) =
             map_option (\<lambda>m. m\<lparr>m_generated_at :=
                   clock e (ticks (fst (load_vars e spec a (fst r1))))\<rparr>)
               (meta_files (fst r1) (meta_path a spec))
         \<and> map_option m_generated_at (meta_files (fst r1) (meta_path a spec))
             = Some (clock e (ticks w1))))"
proof (intro conjI impI)
  assume h: "state_files w (state_path a spec) = Some doc
      \<and> (min_words a \<le> int (count_words (manuscript_text (title spec) (st_chapters doc)))
           \<or> max_chapters a \<le> int (length (st_chapters doc)))"
  then have s: "state_files w (state_path a spec) = Some doc"
    and b: "\<not> loop_condition spec a (st_chapters doc)"
    by (auto simp: loop_condition_def)
  note g = stored_run [OF s b, of e]
  note lv = load_vars_stored [OF s, of e]
  show "let r = generate_one_book e spec a w
      in gen_calls (fst r) = gen_calls w \<and> posts (fst r) = posts w \<and> sleeps (fst r) = sleeps w
         \<and> state_files (fst r) = state_files w \<and> book_files (fst r) = book_files w
         \<and> meta_files (fst r) (meta_path a spec) =
             Some \<lparr>m_title = title spec, m_genre = genre spec, m_model = model a,
                   m_endpoint = endpoint a,
                   m_total_words = count_words (manuscript_text (title spec) (st_chapters doc)),
                   m_chapters = length (st_chapters doc), m_target_min_words = min_words a,
                   m_generated_at = clock e (ticks w), m_state_file = state_path a spec,
                   m_chapter_summaries = st_chapter_summaries doc\<rparr>"
    unfolding Let_def g finalize_frame finalize_meta lv by simp
next
  assume l: "book_loop e spec a (snd (load_vars e spec a w)) (fst (load_vars e spec a w))
         = (w1, Inr v1)"
  note R = second_run [OF l]
  show "let r1 = generate_one_book e spec a w;
          r2 = generate_one_book e spec a (fst r1)
      in gen_calls (fst r2) = gen_calls (fst r1) \<and> posts (fst r2) = posts (fst r1)
         \<and> sleeps (fst r2) = sleeps (fst r1)
         \<and> state_files (fst r2) = state_files (fst r1)
         \<and> book_files (fst r2) = book_files (fst r1)
         \<and> snd r2 = snd r1
         \<and> meta_files (fst r2) (meta_path a spec) =
             map_option (\<lambda>m. m\<lparr>m_generated_at :=
                   clock e (ticks (fst (load_vars e spec a (fst r1))))\<rparr>)
               (meta_files (fst r1) (meta_path a spec))
         \<and> map_option m_generated_at (meta_files (fst r1) (meta_path a spec))
             = Some (clock e (ticks w1))"
    unfolding Let_def using R by blast
qed

lemma sample_first_run:
  "\<exists>w1 v1. book_loop sample_env sample_spec (sample_args\<lparr>max_chapters := 1\<rparr>)
        (snd (load_vars sample_env sample_spec (sample_args\<lparr>max_chapters := 1\<rparr>) empty_world))
        (fst (load_vars sample_env sample_spec (sample_args\<lparr>max_chapters := 1\<rparr>) empty_world))
        = (w1, Inr v1)
      \<and> chapters v1 = [''Chapter 1: Dawn. The night was long.'']
      \<and> chapter_summaries v1 = [''Chapter 1: Dawn. The night was long.'']
      \<and> ticks w1 = 2
      \<and> state_files w1 (state_path (sample_args\<lparr>max_chapters := 1\<rparr>) sample_spec)
          = Some (state v1)
      \<and> st_chapters (state v1) = chapters v1
      \<and> st_chapter_summaries (state v1) = chapter_summaries v1"
proof -
  let ?T = "''Chapter 1: Dawn. The night was long.''"
  let ?a = "sample_args\<lparr>max_chapters := 1\<rparr>"
  let ?v = "snd (load_vars sample_env sample_spec ?a empty_world)"
  let ?w = "fst (load_vars sample_env sample_spec ?a empty_world)"
  have sa: "\<And>k rq. service sample_env k rq = Responds ?T" by (simp add: sample_env_def)
  have ne: "strip ?T \<noteq> []" by (simp add: sample_reply)
  have ch: "startswith (lower (strip ?T)) ''chapter ''" by (simp add: sample_reply)
  have t: "title sample_spec = ''Null Meridian''" by (simp add: sample_spec_def)
  have a: "min_words ?a = 40000" "max_chapters ?a = 1" by (simp_all add: sample_args_def)
  have fresh: "state_files empty_world (state_path ?a sample_spec) = None"
    by (simp add: empty_world_def)
  note v = load_vars_fresh(1,2) [OF fresh, where e = sample_env]
  have tw: "ticks ?w = 1"
    unfolding load_vars_fresh(4) [OF fresh] by (simp add: empty_world_def)
  have go: "\<forall>j<1. loop_condition sample_spec ?a (chapters ?v @ replicate j (strip ?T))"
    unfolding v loop_condition_def count_words_manuscript a t by (simp add: sample_reply)
  have stop: "\<not> loop_condition sample_spec ?a (chapters ?v @ replicate 1 (strip ?T))"
    unfolding v loop_condition_def a by simp
  obtain w1 v1 where l: "book_loop sample_env sample_spec ?a ?v ?w = (w1, Inr v1)"
    and c: "chapters v1 = [?T]" and cs: "chapter_summaries v1 = [?T]"
    using answered_loop [OF sa ne ch go stop, of ?w, unfolded v]
    by (auto simp: sample_reply)
  from book_loop_ticks [OF l] have "ticks w1 = 2" unfolding c v tw by simp
  moreover have "chapters v1 \<noteq> chapters ?v" unfolding c v by simp
  with book_loop_stored [OF l]
  have "state_files w1 (state_path ?a sample_spec) = Some (state v1)"
    "st_chapters (state v1) = chapters v1"
    "st_chapter_summaries (state v1) = chapter_summaries v1"
    by auto
  ultimately show ?thesis using l c cs by blast
qed

theorem second_run_regenerates_nothing_witness:
  "gen_calls (fst (generate_one_book sample_env sample_spec (sample_args\<lparr>max_chapters := 1\<rparr>)
       (fst (generate_one_book sample_env sample_spec (sample_args\<lparr>max_chapters := 1\<rparr>)
          empty_world))))
     = gen_calls (fst (generate_one_book sample_env sample_spec (sample_args\<lparr>max_chapters := 1\<rparr>)
          empty_world))
   \<and> book_files (fst (generate_one_book sample_env sample_spec (sample_args\<lparr>max_chapters := 1\<rparr>)
       (fst (generate_one_book sample_env sample_spec (sample_args\<lparr>max_chapters := 1\<rparr>)
          empty_world))))
     = book_files (fst (generate_one_book sample_env sample_spec (sample_args\<lparr>max_chapters := 1\<rparr>)
          empty_world))
   \<and> snd (generate_one_book sample_env sample_spec (sample_args\<lparr>max_chapters := 1\<rparr>)
       (fst (generate_one_book sample_env sample_spec (sample_args\<lparr>max_chapters := 1\<rparr>)
          empty_world)))
     = snd (generate_one_book sample_env sample_spec (sample_args\<lparr>max_chapters := 1\<rparr>)
          empty_world)
   \<and> map_option m_total_words
       (meta_files (fst (generate_one_book sample_env sample_spec (sample_args\<lparr>max_chapters := 1\<rparr>)
          (fst (generate_one_book sample_env sample_spec (sample_args\<lparr>max_chapters := 1\<rparr>)
             empty_world))))
         (meta_path (sample_args\<lparr>max_chapters := 1\<rparr>) sample_spec)) = Some 9
   \<and> map_option m_chapters
       (meta_files (fst (generate_one_book sample_env sample_spec (sample_args\<lparr>max_chapters := 1\<rparr>)
          (fst (generate_one_book sample_env sample_spec (sample_args\<lparr>max_chapters := 1\<rparr>)
             empty_world))))
         (meta_path (sample_args\<lparr>max_chapters := 1\<rparr>) sample_spec)) = Some 1"
proof -
  let ?T = "''Chapter 1: Dawn. The night was long.''"
  let ?a = "sample_args\<lparr>max_chapters := 1\<rparr>"
  let ?r1 = "generate_one_book sample_env sample_spec ?a empty_world"
  obtain w1 v1 where l: "book_loop sample_env sample_spec ?a
        (snd (load_vars sample_env sample_spec ?a empty_world))
        (fst (load_vars sample_env sample_spec ?a empty_world)) = (w1, Inr v1)"
    and c: "chapters v1 = [?T]"
    and st: "state_files w1 (state_path ?a sample_spec) = Some (state v1)"
      "st_chapters (state v1) = chapters v1"
    using sample_first_run by blast
  have t: "title sample_spec = ''Null Meridian''" by (simp add: sample_spec_def)
  have a: "max_chapters ?a = 1" by simp
  have sf: "state_files (fst ?r1) (state_path ?a sample_spec) = Some (state v1)"
    unfolding finalize_after_loop [OF l] finalize_frame by (rule st(1))
  have h1: "state_files (fst ?r1) (state_path ?a sample_spec) = Some (state v1)
      \<and> (min_words ?a \<le> int (count_words (manuscript_text (title sample_spec)
                                              (st_chapters (state v1))))
           \<or> max_chapters ?a \<le> int (length (st_chapters (state v1))))"
    using sf unfolding st(2) c a by simp
  have n: "count_words (manuscript_text (title sample_spec) [?T]) = 9"
    unfolding count_words_manuscript t by (simp add: sample_reply)
  note A = second_run_regenerates_nothing [where w = "fst ?r1" and a = ?a
      and spec = sample_spec and doc = "state v1" and e = sample_env and ?w1.0 = w1 and ?v1.0 = v1,
      unfolded Let_def, THEN conjunct1, rule_format, OF h1,
      unfolded st(2) c n]
  note B = second_run_regenerates_nothing [where w = empty_world and a = ?a
      and spec = sample_spec and doc = "state v1" and e = sample_env and ?w1.0 = w1 and ?v1.0 = v1,
      unfolded Let_def, THEN conjunct2, rule_format, OF l]
  note mA = A [THEN conjunct2, THEN conjunct2, THEN conjunct2, THEN conjunct2, THEN conjunct2]
  have tw: "map_option m_total_words
      (meta_files (fst (generate_one_book sample_env sample_spec ?a (fst ?r1)))
         (meta_path ?a sample_spec)) = Some 9"
    unfolding mA by simp
  have nc: "map_option m_chapters
      (meta_files (fst (generate_one_book sample_env sample_spec ?a (fst ?r1)))
         (meta_path ?a sample_spec)) = Some 1"
    unfolding mA by simp
  from B have "gen_calls (fst (generate_one_book sample_env sample_spec ?a (fst ?r1)))
        = gen_calls (fst ?r1)"
    and "book_files (fst (generate_one_book sample_env sample_spec ?a (fst ?r1)))
        = book_files (fst ?r1)"
    and "snd (generate_one_book sample_env sample_spec ?a (fst ?r1)) = snd ?r1"
    by blast+
  with tw nc show ?thesis by blast
qed

text \<open>
  C2, as it is worded, fails: the metadata of the second run is not that of the first.
  With a clock that counts its readings, the first run of a book of one chapter stamps its
  metadata document with reading 2 and the run directly after it with reading 3, while
  neither the manuscript nor the state document changes.
\<close>

theorem second_run_metadata_differs:
  "map_option m_generated_at
     (meta_files (fst (generate_one_book sample_env sample_spec (sample_args\<lparr>max_chapters := 1\<rparr>)
          empty_world))
        (meta_path (sample_args\<lparr>max_chapters := 1\<rparr>) sample_spec)) = Some ''2''
   \<and> map_option m_generated_at
     (meta_files (fst (generate_one_book sample_env sample_spec (sample_args\<lparr>max_chapters := 1\<rparr>)
          (fst (generate_one_book sample_env sample_spec (sample_args\<lparr>max_chapters := 1\<rparr>)
             empty_world))))
        (meta_path (sample_args\<lparr>max_chapters := 1\<rparr>) sample_spec)) = Some ''3''
   \<and> meta_files (fst (generate_one_book sample_env sample_spec (sample_args\<lparr>max_chapters := 1\<rparr>)
          (fst (generate_one_book sample_env sample_spec (sample_args\<lparr>max_chapters := 1\<rparr>)
             empty_world))))
        (meta_path (sample_args\<lparr>max_chapters := 1\<rparr>) sample_spec)
     \<noteq> meta_files (fst (generate_one_book sample_env sample_spec (sample_args\<lparr>max_chapters := 1\<rparr>)
          empty_world))
        (meta_path (sample_args\<lparr>max_chapters := 1\<rparr>) sample_spec)"
proof -
  let ?a = "sample_args\<lparr>max_chapters := 1\<rparr>"
  let ?r1 = "generate_one_book sample_env sample_spec ?a empty_world"
  let ?r2 = "generate_one_book sample_env sample_spec ?a (fst ?r1)"
  obtain w1 v1 where l: "book_loop sample_env sample_spec ?a
        (snd (load_vars sample_env sample_spec ?a empty_world))
        (fst (load_vars sample_env sample_spec ?a empty_world)) = (w1, Inr v1)"
    and tk: "ticks w1 = 2"
    and st: "state_files w1 (state_path ?a sample_spec) = Some (state v1)"
    using sample_first_run by blast
  have ck: "\<And>k. clock sample_env k = str_nat k" by (simp add: sample_env_def)
  have d: "str_nat 2 = ''2''" "str_nat 3 = ''3''" by (simp_all add: str_nat.simps)
  note g = finalize_after_loop [OF l]
  have sf: "state_files (fst ?r1) (state_path ?a sample_spec) = Some (state v1)"
    unfolding g finalize_frame by (rule st)
  have t2: "ticks (fst (load_vars sample_env sample_spec ?a (fst ?r1))) = 3"
    unfolding load_vars_stored(5) [OF sf] unfolding g finalize_ticks tk by simp
  note R = second_run(7,8) [OF l, unfolded t2 tk ck d]
  have m1: "map_option m_generated_at (meta_files (fst ?r1) (meta_path ?a sample_spec)) = Some ''2''"
    by (rule R(2))
  have m2: "map_option m_generated_at (meta_files (fst ?r2) (meta_path ?a sample_spec)) = Some ''3''"
    unfolding R(1) using m1 by (auto simp: option.map_comp comp_def)
  have "meta_files (fst ?r2) (meta_path ?a sample_spec) \<noteq> meta_files (fst ?r1) (meta_path ?a sample_spec)"
  proof
    assume "meta_files (fst ?r2) (meta_path ?a sample_spec) = meta_files (fst ?r1) (meta_path ?a sample_spec)"
    then have "map_option m_generated_at (meta_files (fst ?r2) (meta_path ?a sample_spec))
        = map_option m_generated_at (meta_files (fst ?r1) (meta_path ?a sample_spec))"
      by (rule arg_cong)
    then have "Some ''3'' = Some ''2''" unfolding m1 m2 .
    then show False by simp
  qed
  with m1 m2 show ?thesis by blast
qed

end
